theory Spec2Isabelle
  imports Complex_Main "HOL-Library.Word" "HOL-Library.Char_ord" "HOL-Library.List_Lexorder"
begin

section \<open>SkySatPrep: radiometric preparation of SkySat L1A panchromatic rasters\<close>

text \<open>
  A shallow embedding of \<^verbatim>\<open>src/skysatprep/core.py\<close>.

  Conventions of the embedding.
  \<^item> A NumPy array is its shape together with its samples in row-major order. Every
    array operation of the source is elementwise, so it is \<open>map_ndarray\<close>; boolean-mask
    indexing returns the selected samples as a flat sequence.
  \<^item> \<^verbatim>\<open>np.uint16\<close> samples are \<open>16 word\<close>.
  \<^item> \<^verbatim>\<open>np.float32\<close> / \<^verbatim>\<open>np.float64\<close> / Python \<^verbatim>\<open>float\<close> values are
    real numbers, and the arithmetic of the source is followed operation by operation.
    In the quantizer, whose result is an exact integer, each operation is rounded to
    single precision (\<open>float32\<close>); in the stretch and the tone curve the rounding error of
    the operations is not modelled.
  \<^item> A Python exception is a value of type \<open>exn\<close>; a function that can raise returns
    \<open>exn + 'a\<close>, and one that also touches files returns that result with the world it
    leaves behind (the effects made before a raise stay).
\<close>

subsection \<open>Arrays\<close>

datatype 'a ndarray = NDArray (shape: "nat list") (flat: "'a list")

type_synonym uint16 = "16 word"

definition clip :: "real \<Rightarrow> real \<Rightarrow> real \<Rightarrow> real" where
  \<comment> \<open>\<^verbatim>\<open>np.clip(v, lo, hi)\<close> on one sample: \<^verbatim>\<open>minimum(maximum(v, lo), hi)\<close>\<close>
  "clip v lo hi = min (max v lo) hi"

definition u16_to_float :: "uint16 \<Rightarrow> real" where
  \<comment> \<open>\<^verbatim>\<open>astype(np.float32)\<close> on a 16-bit sample: exact, 16 bits fit the mantissa\<close>
  "u16_to_float v = real (unat v)"

definition trunc :: "real \<Rightarrow> int" where
  \<comment> \<open>conversion of a float to an integer drops the fraction (towards zero)\<close>
  "trunc v = (if 0 \<le> v then \<lfloor>v\<rfloor> else \<lceil>v\<rceil>)"

definition astype_uint16 :: "real \<Rightarrow> uint16" where
  \<comment> \<open>\<^verbatim>\<open>astype(np.uint16)\<close> on a float sample. For a value whose integer part is in
      0..65535 this is that integer part; beyond that range the conversion is the
      platform's (here: reduced modulo 65536), and the pipeline never reaches it.\<close>
  "astype_uint16 v = word_of_int (trunc v)"

subsection \<open>Exceptions\<close>

datatype exn =
    RuntimeError string
  | ValueError string
  | OSError string
  | FileNotFoundError string
  | CalledProcessError string
  | AttributeError string
  | UnicodeEncodeError string

subsection \<open>Percentile Stretch Estimator (core.py, lines 101-108)\<close>

definition np_percentile :: "real list \<Rightarrow> real \<Rightarrow> real" where
  \<comment> \<open>\<^verbatim>\<open>np.percentile(a, q)\<close> with the default method (linear interpolation between
      ranked samples) on a non-empty population\<close>
  "np_percentile a q =
     (let s = sort a;
          n = length s;
          virtual_index = real (n - 1) * (q / 100);
          previous_index = nat \<lfloor>virtual_index\<rfloor>;
          next_index = min (previous_index + 1) (n - 1);
          gamma = virtual_index - of_int \<lfloor>virtual_index\<rfloor>;
          previous = s ! previous_index;
          next = s ! next_index
      in previous + (next - previous) * gamma)"

definition np_percentile_pair :: "real list \<Rightarrow> real \<Rightarrow> real \<Rightarrow> exn + (real \<times> real)" where
  \<comment> \<open>\<^verbatim>\<open>np.percentile(nz, [pmin, pmax])\<close>: a percentile outside 0..100 raises ValueError\<close>
  "np_percentile_pair a pmin pmax =
     (if 0 \<le> pmin \<and> pmin \<le> 100 \<and> 0 \<le> pmax \<and> pmax \<le> 100
      then Inr (np_percentile a pmin, np_percentile a pmax)
      else Inl (ValueError ''Percentiles must be in the range [0, 100]''))"

definition robust_percentiles :: "uint16 ndarray \<Rightarrow> real \<Rightarrow> real \<Rightarrow> exn + (real \<times> real)" where
  \<comment> \<open>The test \<^verbatim>\<open>not np.isfinite(lo) or not np.isfinite(hi)\<close> of line 106 is always
      false on the interpolation of finite samples and has no counterpart on the reals.\<close>
  "robust_percentiles arr_u16 pmin pmax =
     (let nz = filter (\<lambda>v. v > 0 \<and> v < 65535) (flat arr_u16) in
      if length nz = 0 then Inr (1, 99)
      else
        case np_percentile_pair (map u16_to_float nz) pmin pmax of
          Inl e \<Rightarrow> Inl e
        | Inr (lo, hi) \<Rightarrow>
            if hi \<le> lo
            then Inr (u16_to_float (Min (set nz)), u16_to_float (Max (set nz)))
            else Inr (lo, hi))"

subsection \<open>Percentile stretch (core.py, lines 170-171)\<close>

definition stretch :: "uint16 ndarray \<Rightarrow> real \<Rightarrow> real \<Rightarrow> real ndarray" where
  "stretch arr lo hi =
     (let arrf = map_ndarray u16_to_float arr
      in map_ndarray (\<lambda>v. clip ((v - lo) / max (1 / 10 ^ 6) (hi - lo)) 0 1) arrf)"

subsection \<open>Tone Curve (core.py, lines 128-136)\<close>

definition apply_shadow_highlight_tone :: "real ndarray \<Rightarrow> real \<Rightarrow> real \<Rightarrow> real ndarray" where
  "apply_shadow_highlight_tone arr01 shadow_boost highlight_comp =
     (if shadow_boost \<le> 0 \<and> highlight_comp \<le> 0 then arr01
      else
        let y = arr01;
            y = (if shadow_boost > 0
                 then map_ndarray (\<lambda>v. v + shadow_boost * (1 - v) * (1 - v)) y else y);
            y = (if highlight_comp > 0
                 then map_ndarray (\<lambda>v. v - highlight_comp * (v * v)) y else y)
        in map_ndarray (\<lambda>v. clip v 0 1) y)"

subsection \<open>Single precision\<close>

text \<open>
  \<open>float32 x\<close> is the single-precision number nearest to \<open>x\<close>, a tie going to the even
  significand: the exponent \<open>e\<close> of \<open>x\<close> is the integer part of its binary logarithm (at
  least -126, below which the numbers are subnormal), neighbouring numbers are
  \<open>2^(e - 23)\<close> apart. Overflow to infinity is not modelled; the pipeline stays far below.
\<close>

fun bitlength :: "nat \<Rightarrow> nat" where
  \<comment> \<open>the number of binary digits of \<open>n\<close>\<close>
  "bitlength n = (if n = 0 then 0 else Suc (bitlength (n div 2)))"

declare bitlength.simps [simp del]

definition pow2 :: "int \<Rightarrow> real" where
  "pow2 e = (if 0 \<le> e then 2 ^ nat e else 1 / 2 ^ nat (- e))"

definition float32_exponent :: "real \<Rightarrow> int" where
  \<comment> \<open>for \<open>x > 0\<close>: the \<open>e\<close> with \<open>2^e \<le> x < 2^(e + 1)\<close>, see \<open>float32_exponent_bounds\<close>\<close>
  "float32_exponent x =
     (if 1 \<le> x then int (bitlength (nat \<lfloor>x\<rfloor>)) - 1
      else - int (bitlength (nat (\<lceil>1 / x\<rceil> - 1))))"

definition round_half_even :: "real \<Rightarrow> int" where
  "round_half_even t =
     (let f = \<lfloor>t\<rfloor>; r = t - of_int f
      in if r < 1 / 2 then f else if 1 / 2 < r then f + 1 else if even f then f else f + 1)"

definition float32 :: "real \<Rightarrow> real" where
  "float32 x =
     (if x = 0 then 0
      else
        let e = max (float32_exponent \<bar>x\<bar>) (- 126);
            ulp = pow2 (e - 23)
        in sgn x * (of_int (round_half_even (\<bar>x\<bar> / ulp)) * ulp))"

subsection \<open>Quantizer (core.py, line 181)\<close>

definition quantize :: "real ndarray \<Rightarrow> uint16 ndarray" where
  \<comment> \<open>\<^verbatim>\<open>(arrf * 65535.0 + 0.5).astype(np.uint16)\<close> on a single-precision array: the product
      and the sum are single-precision operations\<close>
  "quantize arrf = map_ndarray (\<lambda>v. astype_uint16 (float32 (float32 (v * 65535) + 0.5))) arrf"

subsection \<open>The map of the tone curve on one sample\<close>

definition tone_sample :: "real \<Rightarrow> real \<Rightarrow> real \<Rightarrow> real" where
  \<comment> \<open>what \<open>apply_shadow_highlight_tone\<close> does to a single sample; see \<open>tone_is_map\<close>\<close>
  "tone_sample s h v =
     (if s \<le> 0 \<and> h \<le> 0 then v
      else let y = (if s > 0 then v + s * (1 - v) * (1 - v) else v);
               y = (if h > 0 then y - h * (y * y) else y)
           in clip y 0 1)"

subsection \<open>Paths\<close>

text \<open>
  A \<^verbatim>\<open>pathlib.Path\<close> is the list of its components, the last one being its name.
  Directories are implicit: a directory is a prefix of the path of a file. Two paths are
  the same file exactly if they are equal (a case-sensitive file system without links).
\<close>

type_synonym path = "string list"

definition path_name :: "path \<Rightarrow> string" where
  \<comment> \<open>\<^verbatim>\<open>p.name\<close>\<close>
  "path_name p = (if p = [] then [] else last p)"

definition with_name :: "path \<Rightarrow> string \<Rightarrow> exn + path" where
  \<comment> \<open>\<^verbatim>\<open>p.with_name(n)\<close>: ValueError when \<open>p\<close> has an empty name\<close>
  "with_name p n =
     (if path_name p = [] then Inl (ValueError ''path has an empty name'')
      else Inr (butlast p @ [n]))"

definition joinpath :: "path \<Rightarrow> string \<Rightarrow> path" where
  \<comment> \<open>\<^verbatim>\<open>d / n\<close>\<close>
  "joinpath d n = d @ [n]"

definition stem :: "string \<Rightarrow> string" where
  \<comment> \<open>\<^verbatim>\<open>p.stem\<close> on the name: the name without its last suffix; a name whose only dot
      is its first or last character has no suffix\<close>
  "stem n =
     (let after = takeWhile (\<lambda>c. c \<noteq> CHR ''.'') (rev n);
          i = length n - length after - 1
      in if CHR ''.'' \<in> set n \<and> 0 < i \<and> i < length n - 1 then take i n else n)"

subsection \<open>Rasters, files and the world\<close>

type_synonym metadata = "(string \<times> string) list"

record dataset =
  RasterCount :: nat
  RasterXSize :: nat
  RasterYSize :: nat
  band1 :: "int ndarray"      \<comment> \<open>the samples of band 1, of the raster's integer type\<close>
  nodata :: "int option"      \<comment> \<open>the no-data value of band 1, if one is set\<close>
  general_md :: metadata      \<comment> \<open>\<^verbatim>\<open>GetMetadata()\<close>: the default namespace\<close>
  rpc_md :: metadata          \<comment> \<open>\<^verbatim>\<open>GetMetadata("RPC")\<close>\<close>

datatype content = Blob string | Raster dataset

datatype event =
    RADPREP string                      \<comment> \<open>\<^verbatim>\<open>[RADPREP] {name}\<close>\<close>
  | WARN_no_rpc string                  \<comment> \<open>\<^verbatim>\<open>[WARN] No RPC embedded for {name} ...\<close>\<close>
  | WARN_verify string                  \<comment> \<open>\<^verbatim>\<open>[WARN] Could not verify RPC in {name}\<close>\<close>
  | WARN_gdaladdo string exn            \<comment> \<open>\<^verbatim>\<open>[WARN] gdaladdo failed for {name}: {e}\<close>\<close>
  | WARN_quicklook string exn           \<comment> \<open>\<^verbatim>\<open>[WARN] gdalwarp quicklook failed for {name}: {e}\<close>\<close>
  | WARN_remove string exn              \<comment> \<open>\<^verbatim>\<open>[WARN] failed to remove quicklook {name}: {e}\<close>\<close>
  | Removed_quicklook string            \<comment> \<open>\<^verbatim>\<open>removed quicklook: {name}\<close>\<close>
  | WARN_no_tifs path                   \<comment> \<open>\<^verbatim>\<open>[WARN] No SkySat L1A TIFFs found in {dir}\<close>\<close>
  | Wrote string                        \<comment> \<open>\<^verbatim>\<open>wrote {name}\<close>\<close>
  | Sidecars "string list"              \<comment> \<open>\<^verbatim>\<open>sidecars: {names}\<close>\<close>
  | Quicklook string                    \<comment> \<open>\<^verbatim>\<open>quicklook: {name}\<close>\<close>
  | ERROR string exn                    \<comment> \<open>\<^verbatim>\<open>[ERROR] {name}: {e}\<close>\<close>

text \<open>
  The world: the files (the first entry for a path is the file at that path), the
  directories made so far (a directory also exists when a file lies below it), the lines
  printed so far, and what the environment decides: which operations the file system and
  the GDAL drivers refuse, which lines cannot be printed (standard output closed, a line
  that its encoding cannot encode), how the external tools end, whether OpenCV is there
  and what its CLAHE computes.
\<close>

record world =
  files :: "(path \<times> content) list"
  dirs :: "path list"
  printed :: "event list"
  print_error :: "event \<Rightarrow> exn option"
  mkdir_refused :: "path \<Rightarrow> bool"
  list_refused :: "path \<Rightarrow> bool"
  copy_refused :: "path \<Rightarrow> bool"
  create_refused :: "path \<Rightarrow> bool"
  update_refused :: "path \<Rightarrow> bool"
  rpc_not_kept :: "path \<Rightarrow> bool"
  remove_refused :: "path \<Rightarrow> bool"
  gdaladdo_run :: "path \<Rightarrow> exn option"
  gdalwarp_run :: "path \<Rightarrow> exn option"
  gdalwarp_output :: "path \<Rightarrow> content"
  has_cv2 :: bool
  clahe_apply :: "real \<Rightarrow> int \<Rightarrow> 8 word ndarray \<Rightarrow> exn + 8 word ndarray"

type_synonym 'a io = "(exn + 'a) \<times> world"

definition lookup :: "world \<Rightarrow> path \<Rightarrow> content option" where
  "lookup w p = map_of (files w) p"

definition path_exists :: "path \<Rightarrow> world \<Rightarrow> bool" where
  \<comment> \<open>\<^verbatim>\<open>p.exists()\<close>\<close>
  "path_exists p w = (lookup w p \<noteq> None)"

definition write_file :: "path \<Rightarrow> content \<Rightarrow> world \<Rightarrow> world" where
  "write_file p f w = w\<lparr>files := (p, f) # files w\<rparr>"

definition remove_file :: "path \<Rightarrow> world \<Rightarrow> world" where
  "remove_file p w = w\<lparr>files := filter (\<lambda>(q, f). q \<noteq> p) (files w)\<rparr>"

definition is_dir :: "path \<Rightarrow> world \<Rightarrow> bool" where
  "is_dir d w =
     (d \<in> set (dirs w) \<or>
      list_ex (\<lambda>(p, f). length d < length p \<and> take (length d) p = d) (files w))"

definition log_msg :: "event \<Rightarrow> world \<Rightarrow> unit io" where
  \<comment> \<open>\<^verbatim>\<open>log(msg)\<close>, line 26: \<^verbatim>\<open>print\<close> adds the line to the output, or raises\<close>
  "log_msg ev w =
     (case print_error w ev of
        Some e \<Rightarrow> (Inl e, w)
      | None \<Rightarrow> (Inr (), w\<lparr>printed := printed w @ [ev]\<rparr>))"

definition ensure_dir :: "path \<Rightarrow> world \<Rightarrow> unit io" where
  \<comment> \<open>\<^verbatim>\<open>p.mkdir(parents=True, exist_ok=True)\<close>, line 29: the directory and its parents
      are there afterwards; a file at that path, or a refusal of the file system, raises\<close>
  "ensure_dir p w =
     (if mkdir_refused w p \<or> path_exists p w then (Inl (OSError ''mkdir''), w)
      else (Inr (), w\<lparr>dirs := map (\<lambda>n. take n p) [0..<Suc (length p)] @ dirs w\<rparr>))"

subsection \<open>Sidecar files (core.py, lines 17-24 and 32-42)\<close>

definition SIDECAR_SUFFIXES :: "string list" where
  "SIDECAR_SUFFIXES =
     [''.RPB'', ''.rpb'',
      ''_RPC.TXT'', ''_rpc.txt'',
      ''.json'', ''.JSON'',
      ''_metadata.json'', ''_METADATA.JSON'',
      ''.imd'', ''.IMD'',
      ''.xml'', ''.XML'']"

definition shutil_copy2 :: "path \<Rightarrow> path \<Rightarrow> world \<Rightarrow> unit io" where
  \<comment> \<open>\<^verbatim>\<open>shutil.copy2(cand, dst)\<close>: the destination gets the content of the source,
      or the file system refuses and OSError is raised\<close>
  "shutil_copy2 cand dst w =
     (case lookup w cand of
        None \<Rightarrow> (Inl (FileNotFoundError ''copy2''), w)
      | Some f \<Rightarrow>
          if copy_refused w dst then (Inl (OSError ''copy2''), w)
          else (Inr (), write_file dst f w))"

fun copy_sidecars_loop ::
  "path \<Rightarrow> string \<Rightarrow> path \<Rightarrow> string list \<Rightarrow> string list \<Rightarrow> world \<Rightarrow> (string list) io" where
  "copy_sidecars_loop src_tif base dst_dir [] copied w = (Inr copied, w)"
| "copy_sidecars_loop src_tif base dst_dir (suf # sufs) copied w =
     (case with_name src_tif (base @ suf) of
        Inl e \<Rightarrow> (Inl e, w)
      | Inr cand \<Rightarrow>
          if path_exists cand w then
            let dst = joinpath dst_dir (path_name cand) in
            case (if \<not> path_exists dst w then shutil_copy2 cand dst w else (Inr (), w)) of
              (Inl e, w') \<Rightarrow> (Inl e, w')
            | (Inr u, w') \<Rightarrow>
                copy_sidecars_loop src_tif base dst_dir sufs (copied @ [path_name dst]) w'
          else copy_sidecars_loop src_tif base dst_dir sufs copied w)"

definition copy_sidecars :: "path \<Rightarrow> path \<Rightarrow> world \<Rightarrow> (string list) io" where
  \<comment> \<open>\<^verbatim>\<open>src_tif.name[:-4]\<close> is the name without its last four characters, and the
      empty string for a shorter name\<close>
  "copy_sidecars src_tif dst_dir w =
     (let base = take (length (path_name src_tif) - 4) (path_name src_tif)
      in copy_sidecars_loop src_tif base dst_dir SIDECAR_SUFFIXES [] w)"

subsection \<open>GDAL (core.py, lines 13-14, 44-68, 110-126)\<close>

definition gdal_exceptions :: bool where
  \<comment> \<open>line 14, \<^verbatim>\<open>gdal.UseExceptions()\<close>: from the import of the module on, a GDAL call
      that fails raises RuntimeError instead of returning \<^verbatim>\<open>None\<close>\<close>
  "gdal_exceptions = True"

definition gdal_failure :: "string \<Rightarrow> exn + 'a option" where
  "gdal_failure msg = (if gdal_exceptions then Inl (RuntimeError msg) else Inr None)"

datatype access = GA_ReadOnly | GA_Update

definition gdal_Open :: "path \<Rightarrow> access \<Rightarrow> world \<Rightarrow> exn + dataset option" where
  "gdal_Open p acc w =
     (case lookup w p of
        Some (Raster ds) \<Rightarrow>
          if acc = GA_Update \<and> update_refused w p
          then gdal_failure ''cannot open for update''
          else Inr (Some ds)
      | Some (Blob b) \<Rightarrow> gdal_failure ''not recognized as a supported file format''
      | None \<Rightarrow> gdal_failure ''No such file or directory'')"

definition read_rpc_from_source :: "path \<Rightarrow> world \<Rightarrow> exn + metadata" where
  "read_rpc_from_source src_tif w =
     (case gdal_Open src_tif GA_ReadOnly w of
        Inl e \<Rightarrow> Inl e
      | Inr None \<Rightarrow> Inr []
      | Inr (Some ds) \<Rightarrow> Inr (rpc_md ds))"

definition embed_rpc_into_tif :: "path \<Rightarrow> metadata \<Rightarrow> world \<Rightarrow> bool io" where
  \<comment> \<open>\<^verbatim>\<open>ds.SetMetadata(rpc, "RPC")\<close> and closing the dataset store the block in the file,
      unless the driver does not keep it\<close>
  "embed_rpc_into_tif dst_tif rpc w =
     (if rpc = [] then (Inr False, w)
      else
        case gdal_Open dst_tif GA_Update w of
          Inl e \<Rightarrow> (Inl e, w)
        | Inr None \<Rightarrow> (Inr False, w)
        | Inr (Some ds) \<Rightarrow>
            (Inr True,
             if rpc_not_kept w dst_tif then w
             else write_file dst_tif (Raster (ds\<lparr>rpc_md := rpc\<rparr>)) w))"

definition verify_embedded_rpc :: "path \<Rightarrow> world \<Rightarrow> exn + bool" where
  "verify_embedded_rpc dst_tif w =
     (case gdal_Open dst_tif GA_ReadOnly w of
        Inl e \<Rightarrow> Inl e
      | Inr None \<Rightarrow> Inr False
      | Inr (Some ds) \<Rightarrow> Inr (rpc_md ds \<noteq> []))"

definition read_arr :: "dataset \<Rightarrow> int ndarray" where
  \<comment> \<open>\<^verbatim>\<open>_read_arr\<close>\<close>
  "read_arr ds = band1 ds"

definition write_uint16_like :: "dataset \<Rightarrow> path \<Rightarrow> uint16 ndarray \<Rightarrow> world \<Rightarrow> unit io" where
  \<comment> \<open>\<^verbatim>\<open>_write_uint16_like\<close>: a new one-band 16-bit raster of the source's size with the
      source's default-namespace metadata and no RPC block; without GDAL exceptions a
      refused \<^verbatim>\<open>Create\<close> would return \<^verbatim>\<open>None\<close> and line 121 would raise on it\<close>
  "write_uint16_like src_ds out_path arr16 w =
     (case (if create_refused w out_path then gdal_failure ''cannot create''
            else Inr (Some ())) of
        Inl e \<Rightarrow> (Inl e, w)
      | Inr None \<Rightarrow> (Inl (AttributeError ''GetRasterBand''), w)
      | Inr (Some u) \<Rightarrow>
          (Inr (),
           write_file out_path
             (Raster \<lparr>RasterCount = 1,
                      RasterXSize = RasterXSize src_ds,
                      RasterYSize = RasterYSize src_ds,
                      band1 = map_ndarray uint arr16,
                      nodata = Some 0,
                      general_md = general_md src_ds,
                      rpc_md = []\<rparr>) w))"

subsection \<open>External tools (core.py, lines 70-99)\<close>

definition build_pyramids :: "path \<Rightarrow> world \<Rightarrow> unit io" where
  \<comment> \<open>every exception of the \<^verbatim>\<open>gdaladdo\<close> run is caught and logged (an exception of
      that \<^verbatim>\<open>log\<close>, raised in the handler, is not)\<close>
  "build_pyramids tif_path w =
     (case gdaladdo_run w tif_path of
        None \<Rightarrow> (Inr (), w)
      | Some e \<Rightarrow> log_msg (WARN_gdaladdo (path_name tif_path) e) w)"

definition rpc_quicklook :: "path \<Rightarrow> path \<Rightarrow> path \<Rightarrow> string \<Rightarrow> real \<Rightarrow> world \<Rightarrow> (path option) io" where
  \<comment> \<open>only \<^verbatim>\<open>CalledProcessError\<close> is caught (line 97); any other exception of the run,
      such as the tool not being installed, leaves the function\<close>
  "rpc_quicklook src_tif dst_dir dem t_srs res w =
     (let out = joinpath dst_dir (stem (path_name src_tif) @ ''_quicklook.tif'') in
      case gdalwarp_run w src_tif of
        None \<Rightarrow> (Inr (Some out), write_file out (gdalwarp_output w src_tif) w)
      | Some (CalledProcessError m) \<Rightarrow>
          (case log_msg (WARN_quicklook (path_name src_tif) (CalledProcessError m)) w of
             (Inl e, w') \<Rightarrow> (Inl e, w')
           | (Inr u, w') \<Rightarrow> (Inr None, w'))
      | Some e \<Rightarrow> (Inl e, w))"

definition os_remove :: "path \<Rightarrow> world \<Rightarrow> unit io" where
  "os_remove p w =
     (if remove_refused w p \<or> \<not> path_exists p w then (Inl (OSError ''remove''), w)
      else (Inr (), remove_file p w))"

subsection \<open>The pipeline of one image (core.py, lines 138-204)\<close>

record kwargs =
  kw_pmin :: real
  kw_pmax :: real
  kw_clahe_clip :: real
  kw_clahe_tiles :: int
  kw_do_pyramids :: bool
  kw_do_quicklook :: bool
  kw_rm_quicklook :: bool
  kw_dem_path :: "path option"
  kw_t_srs :: "string option"
  kw_ql_res :: "real option"
  kw_shadow_boost :: real
  kw_highlight_comp :: real

definition default_kwargs :: kwargs where
  \<comment> \<open>the defaults of the signature, lines 141-152\<close>
  "default_kwargs =
     \<lparr>kw_pmin = 1, kw_pmax = 99, kw_clahe_clip = 3, kw_clahe_tiles = 8,
      kw_do_pyramids = False, kw_do_quicklook = False, kw_rm_quicklook = False,
      kw_dem_path = None, kw_t_srs = None, kw_ql_res = Some 1,
      kw_shadow_boost = 0.20, kw_highlight_comp = 0.10\<rparr>"

definition astype_uint8 :: "real \<Rightarrow> 8 word" where
  "astype_uint8 v = word_of_int (trunc v)"

definition process_one_pixels :: "dataset \<Rightarrow> kwargs \<Rightarrow> world \<Rightarrow> exn + uint16 ndarray" where
  \<comment> \<open>lines 165-181: read, coerce to 16 bit, stretch, local contrast, tone curve, quantize\<close>
  "process_one_pixels sds K w =
     (let arr = map_ndarray word_of_int (read_arr sds) in
      case robust_percentiles arr (kw_pmin K) (kw_pmax K) of
        Inl e \<Rightarrow> Inl e
      | Inr (lo, hi) \<Rightarrow>
          let arrf = stretch arr lo hi in
          case (if has_cv2 w \<and> kw_clahe_clip K \<noteq> 0 \<and> kw_clahe_clip K > 0
                then
                  let arr8 = map_ndarray (\<lambda>v. astype_uint8 (v * 255 + 0.5)) arrf in
                  case clahe_apply w (kw_clahe_clip K) (kw_clahe_tiles K) arr8 of
                    Inl e \<Rightarrow> Inl e
                  | Inr arr8 \<Rightarrow> Inr (map_ndarray (\<lambda>v. real (unat v) / 255) arr8)
                else Inr arrf) of
            Inl e \<Rightarrow> Inl e
          | Inr arrf \<Rightarrow>
              let arrf = apply_shadow_highlight_tone arrf (kw_shadow_boost K) (kw_highlight_comp K)
              in Inr (quantize arrf))"

definition process_one_rpc :: "dataset \<Rightarrow> path \<Rightarrow> path \<Rightarrow> world \<Rightarrow> unit io" where
  \<comment> \<open>lines 184-189: the transplant of the sensor model\<close>
  "process_one_rpc sds src_tif dst_tif w =
     (case (if rpc_md sds \<noteq> [] then Inr (rpc_md sds) else read_rpc_from_source src_tif w) of
        Inl e \<Rightarrow> (Inl e, w)
      | Inr rpc \<Rightarrow>
          case embed_rpc_into_tif dst_tif rpc w of
            (Inl e, w') \<Rightarrow> (Inl e, w')
          | (Inr embedded, w') \<Rightarrow>
              if \<not> embedded then log_msg (WARN_no_rpc (path_name dst_tif)) w'
              else
                case verify_embedded_rpc dst_tif w' of
                  Inl e \<Rightarrow> (Inl e, w')
                | Inr verified \<Rightarrow>
                    if \<not> verified then log_msg (WARN_verify (path_name dst_tif)) w'
                    else (Inr (), w'))"

definition remove_quicklook :: "path \<Rightarrow> world \<Rightarrow> unit io" where
  \<comment> \<open>lines 198-202: the removal and its line are in the \<^verbatim>\<open>try\<close>; the handler prints
      the warning\<close>
  "remove_quicklook ql_path w =
     (case (case os_remove ql_path w of
              (Inl e, w') \<Rightarrow> (Inl e, w')
            | (Inr u, w') \<Rightarrow> log_msg (Removed_quicklook (path_name ql_path)) w') of
        (Inr u, w') \<Rightarrow> (Inr (), w')
      | (Inl e, w') \<Rightarrow> log_msg (WARN_remove (path_name ql_path) e) w')"

definition process_one_products :: "path \<Rightarrow> path \<Rightarrow> kwargs \<Rightarrow> world \<Rightarrow> (path option) io" where
  \<comment> \<open>lines 191-202: overviews and quicklook\<close>
  "process_one_products dst_tif out_dir K w =
     (case (if kw_do_pyramids K then build_pyramids dst_tif w else (Inr (), w)) of
        (Inl e, w) \<Rightarrow> (Inl e, w)
      | (Inr u, w) \<Rightarrow>
      case (kw_dem_path K, kw_t_srs K, kw_ql_res K) of
        (Some dem, Some srs, Some res) \<Rightarrow>
          if kw_do_quicklook K \<and> srs \<noteq> [] \<and> res \<noteq> 0 then
            case rpc_quicklook dst_tif out_dir dem srs res w of
              (Inl e, w') \<Rightarrow> (Inl e, w')
            | (Inr None, w') \<Rightarrow> (Inr None, w')
            | (Inr (Some ql_path), w') \<Rightarrow>
                if kw_rm_quicklook K \<and> path_exists ql_path w' then
                  case remove_quicklook ql_path w' of
                    (Inl e, w'') \<Rightarrow> (Inl e, w'')
                  | (Inr u, w'') \<Rightarrow> (Inr (Some ql_path), w'')
                else (Inr (Some ql_path), w')
          else (Inr None, w)
      | _ \<Rightarrow> (Inr None, w))"

definition process_one ::
  "path \<Rightarrow> path \<Rightarrow> kwargs \<Rightarrow> world \<Rightarrow> (path \<times> string list \<times> path option) io" where
  "process_one src_tif out_dir K w =
     (case ensure_dir out_dir w of
        (Inl e, w) \<Rightarrow> (Inl e, w)
      | (Inr u, w) \<Rightarrow>
     case copy_sidecars src_tif out_dir w of
        (Inl e, w) \<Rightarrow> (Inl e, w)
      | (Inr copied, w) \<Rightarrow>
     let dst_tif = joinpath out_dir (path_name src_tif) in
     case log_msg (RADPREP (path_name src_tif)) w of
        (Inl e, w) \<Rightarrow> (Inl e, w)
      | (Inr u, w) \<Rightarrow>
     case gdal_Open src_tif GA_ReadOnly w of
        Inl e \<Rightarrow> (Inl e, w)
      | Inr None \<Rightarrow> (Inl (RuntimeError ''Cannot open''), w)
      | Inr (Some sds) \<Rightarrow>
     if RasterCount sds \<noteq> 1 then (Inl (RuntimeError ''expected 1 band''), w)
     else
     case process_one_pixels sds K w of
        Inl e \<Rightarrow> (Inl e, w)
      | Inr arr16 \<Rightarrow>
     case write_uint16_like sds dst_tif arr16 w of
        (Inl e, w) \<Rightarrow> (Inl e, w)
      | (Inr u, w) \<Rightarrow>
     case process_one_rpc sds src_tif dst_tif w of
        (Inl e, w) \<Rightarrow> (Inl e, w)
      | (Inr u, w) \<Rightarrow>
     case process_one_products dst_tif out_dir K w of
        (Inl e, w) \<Rightarrow> (Inl e, w)
      | (Inr ql_path, w) \<Rightarrow> (Inr (dst_tif, copied, ql_path), w))"

subsection \<open>Batch driver (core.py, lines 16 and 206-223)\<close>

definition lower :: "char \<Rightarrow> char" where
  \<comment> \<open>an ASCII capital becomes its small letter: bit 5 of its code is set\<close>
  "lower c =
     (if CHR ''A'' \<le> c \<and> c \<le> CHR ''Z''
      then (case c of Char b0 b1 b2 b3 b4 b5 b6 b7 \<Rightarrow> Char b0 b1 b2 b3 b4 True b6 b7)
      else c)"

definition EXT_TIF_RE_match :: "string \<Rightarrow> bool" where
  \<comment> \<open>\<^verbatim>\<open>EXT_TIF_RE.match(n)\<close> for an ASCII name: no line break before the suffix, the
      suffix compared without regard to case, and at most one line break after it\<close>
  "EXT_TIF_RE_match n =
     (let m = (if n \<noteq> [] \<and> last n = CHR 0x0A then butlast n else n);
          suf = ''_basic_l1a_panchromatic_dn.tif''
      in length suf \<le> length m \<and>
         map lower (drop (length m - length suf) m) = suf \<and>
         CHR 0x0A \<notin> set m)"

definition find_tifs :: "path \<Rightarrow> world \<Rightarrow> exn + path list" where
  \<comment> \<open>the entries of the directory that are files and match, in the order of
      \<^verbatim>\<open>sorted\<close>; \<^verbatim>\<open>iterdir\<close> raises when the directory is not there or cannot be read\<close>
  "find_tifs src_dir w =
     (if \<not> is_dir src_dir w \<or> list_refused w src_dir then Inl (OSError ''iterdir'')
      else
        Inr (sort (filter (\<lambda>p. p \<noteq> [] \<and> butlast p = src_dir \<and> EXT_TIF_RE_match (path_name p))
                     (remdups (map fst (files w))))))"

definition process_tifs_try :: "path \<Rightarrow> path \<Rightarrow> kwargs \<Rightarrow> world \<Rightarrow> unit io" where
  \<comment> \<open>the body of the \<^verbatim>\<open>try\<close>, lines 217-221\<close>
  "process_tifs_try tif pair_out K w =
     (case process_one tif pair_out K w of
        (Inl e, w) \<Rightarrow> (Inl e, w)
      | (Inr (dst, copied, ql), w) \<Rightarrow>
     case log_msg (Wrote (path_name dst)) w of
        (Inl e, w) \<Rightarrow> (Inl e, w)
      | (Inr u, w) \<Rightarrow>
     case (if copied \<noteq> [] then log_msg (Sidecars copied) w else (Inr (), w)) of
        (Inl e, w) \<Rightarrow> (Inl e, w)
      | (Inr u, w) \<Rightarrow>
     (case ql of
        Some q \<Rightarrow> if \<not> kw_rm_quicklook K then log_msg (Quicklook (path_name q)) w
                  else (Inr (), w)
      | None \<Rightarrow> (Inr (), w)))"

fun process_tifs :: "path list \<Rightarrow> path \<Rightarrow> kwargs \<Rightarrow> world \<Rightarrow> unit io" where
  \<comment> \<open>the loop of lines 215-223: \<^verbatim>\<open>except Exception\<close> catches every \<open>exn\<close> of the
      \<^verbatim>\<open>try\<close>; an exception of the handler's own \<^verbatim>\<open>log\<close> ends the loop\<close>
  "process_tifs [] pair_out K w = (Inr (), w)"
| "process_tifs (tif # tifs) pair_out K w =
     (case process_tifs_try tif pair_out K w of
        (Inr u, w') \<Rightarrow> process_tifs tifs pair_out K w'
      | (Inl e, w') \<Rightarrow>
          (case log_msg (ERROR (path_name tif) e) w' of
             (Inl e', w'') \<Rightarrow> (Inl e', w'')
           | (Inr u, w'') \<Rightarrow> process_tifs tifs pair_out K w''))"

definition process_pair_dirs :: "path \<Rightarrow> path \<Rightarrow> kwargs \<Rightarrow> world \<Rightarrow> unit io" where
  "process_pair_dirs pair_src pair_out K w =
     (case ensure_dir pair_out w of
        (Inl e, w) \<Rightarrow> (Inl e, w)
      | (Inr u, w) \<Rightarrow>
     case find_tifs pair_src w of
        Inl e \<Rightarrow> (Inl e, w)
      | Inr tifs \<Rightarrow>
          if tifs = [] then log_msg (WARN_no_tifs pair_src) w
          else process_tifs tifs pair_out K w)"

subsection \<open>Per-file failure isolation, as the specification words it\<close>




subsection \<open>Worlds for the examples\<close>

definition quiet_world :: "(path \<times> content) list \<Rightarrow> world" where
  \<comment> \<open>the given files, nothing printed, an environment that refuses nothing, tools that
      succeed, no OpenCV\<close>
  "quiet_world fs =
     \<lparr>files = fs, dirs = [], printed = [], print_error = (\<lambda>ev. None),
      mkdir_refused = (\<lambda>p. False), list_refused = (\<lambda>p. False),
      copy_refused = (\<lambda>p. False),
      create_refused = (\<lambda>p. False), update_refused = (\<lambda>p. False),
      rpc_not_kept = (\<lambda>p. False), remove_refused = (\<lambda>p. False),
      gdaladdo_run = (\<lambda>p. None), gdalwarp_run = (\<lambda>p. None),
      gdalwarp_output = (\<lambda>p. Blob []),
      has_cv2 = False, clahe_apply = (\<lambda>c t a. Inr a)\<rparr>"

definition tiny_raster :: "nat \<Rightarrow> metadata \<Rightarrow> dataset" where
  \<comment> \<open>a raster of one sample, 7, with the given number of bands and RPC block\<close>
  "tiny_raster bands rpc =
     \<lparr>RasterCount = bands, RasterXSize = 1, RasterYSize = 1,
      band1 = NDArray [1, 1] [7], nodata = None, general_md = [(''AREA_OR_POINT'', ''Area'')],
      rpc_md = rpc\<rparr>"

definition sidecar_world :: world where
  \<comment> \<open>next to \<^verbatim>\<open>in/a.tif\<close> two sidecars; one of them is already in \<^verbatim>\<open>out\<close>, with
      another content\<close>
  "sidecar_world = quiet_world
     [([''in'', ''a.tif''], Raster (tiny_raster 1 [])),
      ([''in'', ''a.json''], Blob ''new''),
      ([''in'', ''a.xml''], Blob ''x''),
      ([''out'', ''a.json''], Blob ''old'')]"


definition tiny_output :: dataset where
  \<comment> \<open>what the pipeline with its default arguments, without OpenCV, writes for
      \<open>tiny_raster\<close>: the one sample becomes 12845, and there is no RPC block yet\<close>
  "tiny_output =
     \<lparr>RasterCount = 1, RasterXSize = 1, RasterYSize = 1,
      band1 = NDArray [1, 1] [12845], nodata = Some 0,
      general_md = [(''AREA_OR_POINT'', ''Area'')], rpc_md = []\<rparr>"

definition locked_world :: world where
  \<comment> \<open>one source raster with an RPC block; the environment does not let the output
      raster be opened for update\<close>
  "locked_world =
     (quiet_world [([''in'', ''a.tif''], Raster (tiny_raster 1 [(''LINE_OFF'', ''1'')]))])
       \<lparr>update_refused := (\<lambda>p. p = [''out'', ''a.tif''])\<rparr>"

definition out_made :: "world \<Rightarrow> world" where
  \<comment> \<open>the world after \<open>ensure_dir [''out'']\<close>\<close>
  "out_made w = w\<lparr>dirs := [[], [''out'']] @ dirs w\<rparr>"

definition printing :: "event \<Rightarrow> world \<Rightarrow> world" where
  \<comment> \<open>the world after a line was printed\<close>
  "printing ev w = w\<lparr>printed := printed w @ [ev]\<rparr>"

definition locked_written :: world where
  "locked_written =
     write_file [''out'', ''a.tif''] (Raster tiny_output)
       (printing (RADPREP ''a.tif'') (out_made locked_world))"

definition batch_world :: world where
  \<comment> \<open>a directory with two matching rasters, the first with two bands, and another file\<close>
  "batch_world = quiet_world
     [([''in'', ''a_basic_l1a_panchromatic_dn.tif''], Raster (tiny_raster 2 [])),
      ([''in'', ''b_basic_l1a_panchromatic_dn.TIF''], Raster (tiny_raster 1 [(''LINE_OFF'', ''1'')])),
      ([''in'', ''notes.txt''], Blob ''n'')]"


section \<open>Properties\<close>

text \<open>
  C10. Whenever \<open>shadow_boost \<le> 0\<close> and \<open>highlight_comp \<le> 0\<close>, the tone curve returns its
  input array itself: no sample is clipped, so a sample outside \<open>[0, 1]\<close> is passed through
  unchanged.
\<close>

theorem tone_identity_when_disabled:
  "shadow_boost \<le> 0 \<Longrightarrow> highlight_comp \<le> 0 \<Longrightarrow>
     apply_shadow_highlight_tone arr01 shadow_boost highlight_comp = arr01"
  by (simp add: apply_shadow_highlight_tone_def)

theorem tone_identity_when_disabled_witness:
  "(0::real) \<le> 0 \<and> (-1::real) \<le> 0 \<and>
   apply_shadow_highlight_tone (NDArray [3] [2, -3, 1/2]) 0 (-1) = NDArray [3] [2, -3, 1/2]"
  using tone_identity_when_disabled [of 0 "-1" "NDArray [3] [2, -3, 1/2]"] by simp

subsection \<open>Tone curve\<close>

lemma shadow_mono:
  fixes s a b :: real
  assumes "0 \<le> s" "s \<le> 1/2" "0 \<le> a" "a \<le> b" "b \<le> 1"
  shows "a + s * (1 - a) * (1 - a) \<le> b + s * (1 - b) * (1 - b)"
proof -
  have "(b + s * (1 - b) * (1 - b)) - (a + s * (1 - a) * (1 - a)) = (b - a) * (1 - s * (2 - a - b))"
    by (simp add: algebra_simps)
  moreover have "s * (2 - a - b) \<le> (1/2) * 2"
    using assms by (intro mult_mono) auto
  moreover have "0 \<le> (b - a) * (1 - s * (2 - a - b))"
    using assms \<open>s * (2 - a - b) \<le> (1/2) * 2\<close> by (intro mult_nonneg_nonneg) auto
  ultimately show ?thesis by linarith
qed

lemma shadow_range:
  fixes s y :: real
  assumes "0 \<le> s" "s \<le> 1/2" "0 \<le> y" "y \<le> 1"
  shows "0 \<le> y + s * (1 - y) * (1 - y)" "y + s * (1 - y) * (1 - y) \<le> 1"
proof -
  show "0 \<le> y + s * (1 - y) * (1 - y)" using assms by simp
  have "1 - (y + s * (1 - y) * (1 - y)) = (1 - y) * (1 - s * (1 - y))"
    by (simp add: algebra_simps)
  moreover have "s * (1 - y) \<le> (1/2) * 1" using assms by (intro mult_mono) auto
  moreover have "0 \<le> (1 - y) * (1 - s * (1 - y))"
    using assms \<open>s * (1 - y) \<le> (1/2) * 1\<close> by (intro mult_nonneg_nonneg) auto
  ultimately show "y + s * (1 - y) * (1 - y) \<le> 1" by linarith
qed

lemma highlight_mono:
  fixes h a b :: real
  assumes "0 \<le> h" "h \<le> 2/5" "0 \<le> a" "a \<le> b" "b \<le> 1"
  shows "a - h * (a * a) \<le> b - h * (b * b)"
proof -
  have "(b - h * (b * b)) - (a - h * (a * a)) = (b - a) * (1 - h * (a + b))"
    by (simp add: algebra_simps)
  moreover have "h * (a + b) \<le> (2/5) * 2"
    using assms by (intro mult_mono) auto
  moreover have "0 \<le> (b - a) * (1 - h * (a + b))"
    using assms \<open>h * (a + b) \<le> (2/5) * 2\<close> by (intro mult_nonneg_nonneg) auto
  ultimately show ?thesis by linarith
qed

lemma clip_mono: "a \<le> b \<Longrightarrow> clip a 0 1 \<le> clip b 0 1"
  by (simp add: clip_def min_def max_def)

lemma clip_range: "0 \<le> clip v 0 1 \<and> clip v 0 1 \<le> 1"
  by (simp add: clip_def min_def max_def)

lemma tone_is_map:
  "apply_shadow_highlight_tone arr01 s h = map_ndarray (tone_sample s h) arr01"
proof (cases "s \<le> 0 \<and> h \<le> 0")
  case True
  then have "tone_sample s h = (\<lambda>v. v)" by (auto simp: tone_sample_def)
  with True show ?thesis
    by (simp add: apply_shadow_highlight_tone_def ndarray.map_ident)
next
  case False
  then show ?thesis
    by (cases arr01)
       (auto simp: apply_shadow_highlight_tone_def tone_sample_def Let_def ndarray.map_comp comp_def)
qed

lemma tone_sample_range:
  assumes "0 \<le> s" "s \<le> 1/2" "0 \<le> h" "h \<le> 2/5" "0 \<le> v" "v \<le> 1"
  shows "0 \<le> tone_sample s h v \<and> tone_sample s h v \<le> 1"
  using assms clip_range by (simp add: tone_sample_def Let_def)

lemma tone_sample_mono:
  assumes "0 \<le> s" "s \<le> 1/2" "0 \<le> h" "h \<le> 2/5" "0 \<le> a" "a \<le> b" "b \<le> 1"
  shows "tone_sample s h a \<le> tone_sample s h b"
proof (cases "s \<le> 0 \<and> h \<le> 0")
  case True
  then show ?thesis using assms by (simp add: tone_sample_def)
next
  case False
  define f where "f v = (if s > 0 then v + s * (1 - v) * (1 - v) else v)" for v
  define g where "g y = (if h > 0 then y - h * (y * y) else y)" for y
  have fab: "f a \<le> f b" using shadow_mono [of s a b] assms by (simp add: f_def)
  have fa: "0 \<le> f a" using shadow_range(1) [of s a] assms by (simp add: f_def)
  have fb: "f b \<le> 1" using shadow_range(2) [of s b] assms by (simp add: f_def)
  have "g (f a) \<le> g (f b)"
    using highlight_mono [of h "f a" "f b"] assms fab fa fb by (simp add: g_def)
  then have "clip (g (f a)) 0 1 \<le> clip (g (f b)) 0 1" by (rule clip_mono)
  moreover have "tone_sample s h v = clip (g (f v)) 0 1" for v
    using False by (auto simp: tone_sample_def Let_def f_def g_def)
  ultimately show ?thesis by simp
qed

text \<open>
  C1. For every \<open>shadow_boost\<close> in \<open>[0, 0.5]\<close>, every \<open>highlight_comp\<close> in \<open>[0, 0.4]\<close> and
  every input array whose samples all lie in \<open>[0, 1]\<close>, the tone curve returns an array of
  the same shape whose samples all lie in \<open>[0, 1]\<close>, and the map it applies is
  non-decreasing: wherever one input sample is at most another, so are the outputs at these
  two places. (On the reals the order is kept exactly; no tolerance is needed.)
\<close>

theorem tone_curve_range_monotone:
  assumes "0 \<le> shadow_boost" "shadow_boost \<le> 1/2" "0 \<le> highlight_comp" "highlight_comp \<le> 2/5"
    and "\<forall>v \<in> set (flat arr01). 0 \<le> v \<and> v \<le> 1"
  shows "shape (apply_shadow_highlight_tone arr01 shadow_boost highlight_comp) = shape arr01 \<and>
         length (flat (apply_shadow_highlight_tone arr01 shadow_boost highlight_comp)) = length (flat arr01) \<and>
         (\<forall>v \<in> set (flat (apply_shadow_highlight_tone arr01 shadow_boost highlight_comp)). 0 \<le> v \<and> v \<le> 1) \<and>
         (\<forall>i j. i < length (flat arr01) \<and> j < length (flat arr01) \<and> flat arr01 ! i \<le> flat arr01 ! j \<longrightarrow>
            flat (apply_shadow_highlight_tone arr01 shadow_boost highlight_comp) ! i
              \<le> flat (apply_shadow_highlight_tone arr01 shadow_boost highlight_comp) ! j)"
proof -
  have rng: "0 \<le> flat arr01 ! i \<and> flat arr01 ! i \<le> 1" if "i < length (flat arr01)" for i
    using assms(5) that nth_mem by blast
  have "\<forall>v \<in> set (flat arr01). 0 \<le> tone_sample shadow_boost highlight_comp v
          \<and> tone_sample shadow_boost highlight_comp v \<le> 1"
    using assms tone_sample_range by blast
  moreover have "tone_sample shadow_boost highlight_comp (flat arr01 ! i)
        \<le> tone_sample shadow_boost highlight_comp (flat arr01 ! j)"
    if "i < length (flat arr01)" "j < length (flat arr01)" "flat arr01 ! i \<le> flat arr01 ! j" for i j
    using tone_sample_mono [OF assms(1-4), of "flat arr01 ! i" "flat arr01 ! j"] rng that by blast
  ultimately show ?thesis
    by (simp add: tone_is_map ndarray.map_sel)
qed

lemma tone_example:
  "apply_shadow_highlight_tone (NDArray [3] [0, 1/2, 1]) (1/2) (2/5) = NDArray [3] [2/5, 15/32, 3/5]"
  by (simp add: apply_shadow_highlight_tone_def clip_def)

theorem tone_curve_range_monotone_witness:
  "(0::real) \<le> 1/2 \<and> (1/2::real) \<le> 1/2 \<and> (0::real) \<le> 2/5 \<and> (2/5::real) \<le> 2/5 \<and>
   shape (apply_shadow_highlight_tone (NDArray [3] [0, 1/2, 1]) (1/2) (2/5)) = [3] \<and>
   flat (apply_shadow_highlight_tone (NDArray [3] [0, 1/2, 1]) (1/2) (2/5)) ! 0
     \<le> flat (apply_shadow_highlight_tone (NDArray [3] [0, 1/2, 1]) (1/2) (2/5)) ! 2"
proof -
  have h: "\<forall>v \<in> set (flat (NDArray [3] [0, 1/2, 1::real])). 0 \<le> v \<and> v \<le> 1" by simp
  have "(0::nat) < length (flat (NDArray [3] [0, 1/2, 1::real])) \<and>
        (2::nat) < length (flat (NDArray [3] [0, 1/2, 1::real])) \<and>
        flat (NDArray [3] [0, 1/2, 1::real]) ! 0 \<le> flat (NDArray [3] [0, 1/2, 1::real]) ! 2"
    by simp
  moreover note T = tone_curve_range_monotone [of "1/2" "2/5" "NDArray [3] [0, 1/2, 1]", OF _ _ _ _ h]
  ultimately have "flat (apply_shadow_highlight_tone (NDArray [3] [0, 1/2, 1]) (1/2) (2/5)) ! 0
     \<le> flat (apply_shadow_highlight_tone (NDArray [3] [0, 1/2, 1]) (1/2) (2/5)) ! 2"
    by (meson order_refl zero_le_divide_1_iff zero_le_numeral divide_nonneg_nonneg)
  moreover have "shape (apply_shadow_highlight_tone (NDArray [3] [0, 1/2, 1]) (1/2) (2/5)) = [3]"
    using T by simp
  ultimately show ?thesis by simp
qed

subsection \<open>Single precision\<close>

lemma bitlength_bounds: "0 < n \<Longrightarrow> 2 ^ (bitlength n - 1) \<le> n \<and> n < 2 ^ bitlength n"
proof (induction n rule: bitlength.induct)
  case (1 n)
  show ?case
  proof (cases "n div 2 = 0")
    case True
    with "1.prems" have "n = 1" by (cases n) auto
    then show ?thesis by (simp add: bitlength.simps)
  next
    case False
    then have pos: "0 < n div 2" by simp
    from "1.IH" [OF _ pos] "1.prems"
    have ih: "2 ^ (bitlength (n div 2) - 1) \<le> n div 2" "n div 2 < 2 ^ bitlength (n div 2)" by auto
    have b: "bitlength n = Suc (bitlength (n div 2))" using "1.prems" by (subst bitlength.simps) simp
    have bp: "0 < bitlength (n div 2)" using pos by (subst bitlength.simps) simp
    then obtain k where k: "bitlength (n div 2) = Suc k" by (cases "bitlength (n div 2)") auto
    have "2 * 2 ^ k \<le> 2 * (n div 2)" using ih(1) k by simp
    also have "\<dots> \<le> n" by simp
    finally have lo: "2 ^ (bitlength n - 1) \<le> n" by (simp add: b k)
    have "n < 2 * (n div 2) + 2" by presburger
    also have "\<dots> \<le> 2 * 2 ^ bitlength (n div 2)" using ih(2) by simp
    finally have hi: "n < 2 ^ bitlength n" by (simp add: b)
    from lo hi show ?thesis ..
  qed
qed

lemma bitlength_le: "n < 2 ^ k \<Longrightarrow> bitlength n \<le> k"
proof (rule ccontr)
  assume a: "n < 2 ^ k" "\<not> bitlength n \<le> k"
  then have "0 < bitlength n" by simp
  then have "0 < n" by (subst (asm) bitlength.simps) (simp split: if_splits)
  from bitlength_bounds [OF this] have B: "2 ^ (bitlength n - 1) \<le> n" by blast
  have A: "(2::nat) ^ k \<le> 2 ^ (bitlength n - 1)" using a(2) by (intro power_increasing) auto
  from A B have "(2::nat) ^ k \<le> n" by (rule order_trans)
  with a(1) show False by linarith
qed

lemma pow2_pos: "0 < pow2 e"
  by (simp add: pow2_def)

lemma pow2_Suc: "pow2 (e + 1) = 2 * pow2 e"
proof (cases "0 \<le> e")
  case True
  then show ?thesis by (simp add: pow2_def nat_add_distrib)
next
  case False
  show ?thesis
  proof (cases "e = - 1")
    case True
    then show ?thesis by (simp add: pow2_def)
  next
    case ne: False
    with False have neg: "e + 1 < 0" by simp
    have "nat (- e) = Suc (nat (- (e + 1)))" using neg by simp
    with False neg show ?thesis by (simp add: pow2_def)
  qed
qed

lemma pow2_mono: "a \<le> b \<Longrightarrow> pow2 a \<le> pow2 b"
proof -
  have "pow2 a \<le> pow2 (a + int n)" for n
  proof (induction n)
    case 0
    then show ?case by simp
  next
    case (Suc n)
    have "a + int (Suc n) = (a + int n) + 1" by simp
    then have "pow2 (a + int (Suc n)) = 2 * pow2 (a + int n)"
      by (simp only: pow2_Suc)
    with Suc pow2_pos [of "a + int n"] show ?case by simp
  qed
  moreover assume "a \<le> b"
  then obtain n where "b = a + int n" by (metis zle_iff_zadd)
  ultimately show ?thesis by simp
qed

text \<open>The exponent is the integer part of the binary logarithm.\<close>

lemma float32_exponent_bounds:
  assumes "0 < x"
  shows "pow2 (float32_exponent x) \<le> x \<and> x < pow2 (float32_exponent x + 1)"
proof (cases "1 \<le> x")
  case True
  define n where "n = nat \<lfloor>x\<rfloor>"
  have n: "0 < n" "real n \<le> x" "x < real n + 1" using True by (simp_all add: n_def)
  from bitlength_bounds [OF n(1)] have b: "2 ^ (bitlength n - 1) \<le> n" "n < 2 ^ bitlength n" by auto
  have bp: "0 < bitlength n" using n(1) by (subst bitlength.simps) simp
  have e: "float32_exponent x = int (bitlength n) - 1" using True by (simp add: float32_exponent_def n_def)
  have p1: "pow2 (int (bitlength n) - 1) = 2 ^ (bitlength n - 1)"
    using bp by (simp add: pow2_def nat_diff_distrib)
  have p2: "pow2 (int (bitlength n) - 1 + 1) = 2 ^ bitlength n" by (simp add: pow2_def)
  from of_nat_mono [OF b(1), where ?'a = real]
  have "(2::real) ^ (bitlength n - 1) \<le> real n" by simp
  with n(2) have lo: "2 ^ (bitlength n - 1) \<le> x" by linarith
  have "n + 1 \<le> 2 ^ bitlength n" using b(2) by simp
  from of_nat_mono [OF this, where ?'a = real]
  have "real n + 1 \<le> 2 ^ bitlength n" by simp
  with n(3) have hi: "x < 2 ^ bitlength n" by linarith
  from lo hi show ?thesis unfolding e p1 p2 by simp
next
  case False
  then have x1: "x < 1" by simp
  define r where "r = 1 / x"
  have r: "1 < r" using assms x1 by (simp add: r_def)
  define n where "n = nat (\<lceil>r\<rceil> - 1)"
  have c: "2 \<le> \<lceil>r\<rceil>" using r by linarith
  have n: "0 < n" "real n < r" "r \<le> real n + 1"
    using c by (simp_all add: n_def) linarith+
  define k where "k = bitlength n"
  from bitlength_bounds [OF n(1)] have b: "2 ^ (k - 1) \<le> n" "n < 2 ^ k" by (auto simp: k_def)
  have kp: "0 < k" using n(1) unfolding k_def by (subst bitlength.simps) simp
  have e: "float32_exponent x = - int k"
    using False by (simp add: float32_exponent_def n_def r_def k_def)
  have "n + 1 \<le> 2 ^ k" using b(2) by simp
  from of_nat_mono [OF this, where ?'a = real]
  have "real n + 1 \<le> 2 ^ k" by simp
  with n(3) have rk: "r \<le> 2 ^ k" by linarith
  from of_nat_mono [OF b(1), where ?'a = real]
  have "(2::real) ^ (k - 1) \<le> real n" by simp
  with n(2) have rk1: "2 ^ (k - 1) < r" by linarith
  have p1: "pow2 (- int k) = 1 / 2 ^ k" using kp by (simp add: pow2_def)
  have p2: "pow2 (- int k + 1) = 1 / 2 ^ (k - 1)"
  proof (cases "k = 1")
    case True
    then show ?thesis by (simp add: pow2_def)
  next
    case False
    with kp have "- int k + 1 < 0" "nat (int k - 1) = k - 1" by auto
    then show ?thesis by (simp add: pow2_def)
  qed
  have lo: "1 / 2 ^ k \<le> x"
    using rk assms unfolding r_def by (simp add: field_simps)
  have hi: "x < 1 / 2 ^ (k - 1)"
    using rk1 assms unfolding r_def by (simp add: field_simps)
  from lo hi show ?thesis unfolding e p1 p2 by simp
qed

lemma round_half_even_error: "\<bar>of_int (round_half_even t) - t\<bar> \<le> 1 / 2"
proof -
  have "of_int \<lfloor>t\<rfloor> \<le> t" "t < of_int \<lfloor>t\<rfloor> + 1" by linarith+
  then show ?thesis by (auto simp: round_half_even_def Let_def)
qed

lemma round_half_even_nonneg: "0 \<le> t \<Longrightarrow> 0 \<le> round_half_even t"
  by (auto simp: round_half_even_def Let_def)

lemma float32_nonneg: "0 \<le> x \<Longrightarrow> 0 \<le> float32 x"
  by (auto simp: float32_def Let_def pow2_pos round_half_even_nonneg less_imp_le)

lemma float32_error:
  assumes "0 \<le> x" "x < 65536"
  shows "\<bar>float32 x - x\<bar> \<le> 1 / 512"
proof (cases "x = 0")
  case True
  then show ?thesis by (simp add: float32_def)
next
  case False
  with assms have pos: "0 < x" by simp
  define e where "e = max (float32_exponent x) (- 126)"
  define ulp where "ulp = pow2 (e - 23)"
  have "float32_exponent x \<le> 15"
  proof (cases "1 \<le> x")
    case True
    have "\<lfloor>x\<rfloor> < 65536" using assms(2) by (simp add: floor_less_iff)
    then have "nat \<lfloor>x\<rfloor> < 65536" by linarith
    then have "nat \<lfloor>x\<rfloor> < 2 ^ 16" by simp
    then have "bitlength (nat \<lfloor>x\<rfloor>) \<le> 16" by (rule bitlength_le)
    with True show ?thesis by (simp add: float32_exponent_def)
  next
    case False
    then show ?thesis by (simp add: float32_exponent_def)
  qed
  then have "e - 23 \<le> - 8" by (simp add: e_def)
  then have "ulp \<le> pow2 (- 8)" unfolding ulp_def by (rule pow2_mono)
  then have u: "ulp \<le> 1 / 256" by (simp add: pow2_def)
  have up: "0 < ulp" by (simp add: ulp_def pow2_pos)
  have f: "float32 x = of_int (round_half_even (x / ulp)) * ulp"
    using pos by (simp add: float32_def Let_def e_def ulp_def)
  have eq: "of_int (round_half_even (x / ulp)) * ulp - x
      = (of_int (round_half_even (x / ulp)) - x / ulp) * ulp"
    using up by (simp add: field_simps)
  have "\<bar>of_int (round_half_even (x / ulp)) * ulp - x\<bar>
      = \<bar>of_int (round_half_even (x / ulp)) - x / ulp\<bar> * ulp"
    unfolding eq using up by (simp add: abs_mult)
  also have "\<dots> \<le> 1 / 2 * ulp"
    using round_half_even_error [of "x / ulp"] up by (intro mult_right_mono) auto
  also have "\<dots> \<le> 1 / 512" using u by simp
  finally show ?thesis unfolding f .
qed

subsection \<open>Quantizer\<close>

lemma quantize_sample:
  assumes "0 \<le> y" "y \<le> 1"
  shows "uint (astype_uint16 (float32 (float32 (y * 65535) + 0.5)))
           = \<lfloor>float32 (float32 (y * 65535) + 1 / 2)\<rfloor>"
    and "0 \<le> \<lfloor>float32 (float32 (y * 65535) + 1 / 2)\<rfloor>"
    and "\<lfloor>float32 (float32 (y * 65535) + 1 / 2)\<rfloor> \<le> 65535"
    and "\<bar>of_int \<lfloor>float32 (float32 (y * 65535) + 1 / 2)\<rfloor> - y * 65535\<bar> \<le> 1 / 2 + 1 / 256"
proof -
  define x where "x = y * 65535"
  define p where "p = float32 x"
  define s where "s = float32 (p + 1 / 2)"
  have x: "0 \<le> x" "x \<le> 65535" using assms by (simp_all add: x_def)
  have p0: "0 \<le> p" unfolding p_def using x(1) by (rule float32_nonneg)
  have pe: "\<bar>p - x\<bar> \<le> 1 / 512" unfolding p_def using x by (intro float32_error) auto
  have s0: "0 \<le> s" unfolding s_def using p0 by (intro float32_nonneg) simp
  have "p + 1 / 2 < 65536" using pe x(2) by linarith
  then have se: "\<bar>s - (p + 1 / 2)\<bar> \<le> 1 / 512" unfolding s_def using p0 by (intro float32_error) auto
  have fl: "of_int \<lfloor>s\<rfloor> \<le> s" "s < of_int \<lfloor>s\<rfloor> + 1" by linarith+
  show q0: "0 \<le> \<lfloor>float32 (float32 (y * 65535) + 1 / 2)\<rfloor>"
    using s0 by (simp add: s_def p_def x_def)
  have "s < 65536" using se pe x(2) by linarith
  then have "\<lfloor>s\<rfloor> < 65536" by (simp add: floor_less_iff)
  then show q1: "\<lfloor>float32 (float32 (y * 65535) + 1 / 2)\<rfloor> \<le> 65535"
    by (simp add: s_def p_def x_def)
  have "\<bar>of_int \<lfloor>s\<rfloor> - x\<bar> \<le> 1 / 2 + 1 / 256" using fl se pe by linarith
  then show "\<bar>of_int \<lfloor>float32 (float32 (y * 65535) + 1 / 2)\<rfloor> - y * 65535\<bar> \<le> 1 / 2 + 1 / 256"
    by (simp add: s_def p_def x_def)
  have "trunc (float32 (float32 (y * 65535) + 0.5)) = \<lfloor>float32 (float32 (y * 65535) + 1 / 2)\<rfloor>"
    using s0 by (simp add: trunc_def s_def p_def x_def)
  then have "uint (astype_uint16 (float32 (float32 (y * 65535) + 0.5)))
       = \<lfloor>float32 (float32 (y * 65535) + 1 / 2)\<rfloor> mod 2 ^ 16"
    by (simp add: astype_uint16_def uint_word_of_int)
  also have "\<dots> = \<lfloor>float32 (float32 (y * 65535) + 1 / 2)\<rfloor>" using q0 q1 by simp
  finally show "uint (astype_uint16 (float32 (float32 (y * 65535) + 0.5)))
           = \<lfloor>float32 (float32 (y * 65535) + 1 / 2)\<rfloor>" .
qed

text \<open>
  C4, as amended. For every final array whose samples all lie in \<open>[0, 1]\<close>, the quantizer
  stores for each sample \<open>y\<close> the integer part of \<open>y * 65535 + 0.5\<close> as single precision
  computes it: every stored sample lies in \<open>[0, 65535]\<close> and is within \<open>1/2 + 1/256\<close> of
  \<open>y * 65535\<close>.
\<close>

theorem quantize_near_nearest:
  assumes "\<forall>v \<in> set (flat arrf). 0 \<le> v \<and> v \<le> 1"
  shows "shape (quantize arrf) = shape arrf \<and>
         length (flat (quantize arrf)) = length (flat arrf) \<and>
         (\<forall>i < length (flat arrf).
            uint (flat (quantize arrf) ! i)
              = \<lfloor>float32 (float32 (flat arrf ! i * 65535) + 1 / 2)\<rfloor> \<and>
            0 \<le> uint (flat (quantize arrf) ! i) \<and>
            uint (flat (quantize arrf) ! i) \<le> 65535 \<and>
            \<bar>of_int (uint (flat (quantize arrf) ! i)) - flat arrf ! i * 65535\<bar> \<le> 1 / 2 + 1 / 256)"
proof -
  have "uint (flat (quantize arrf) ! i)
              = \<lfloor>float32 (float32 (flat arrf ! i * 65535) + 1 / 2)\<rfloor> \<and>
            0 \<le> uint (flat (quantize arrf) ! i) \<and>
            uint (flat (quantize arrf) ! i) \<le> 65535 \<and>
            \<bar>of_int (uint (flat (quantize arrf) ! i)) - flat arrf ! i * 65535\<bar> \<le> 1 / 2 + 1 / 256"
    if i: "i < length (flat arrf)" for i
  proof -
    define y where "y = flat arrf ! i"
    have y: "0 \<le> y" "y \<le> 1" using assms i by (auto simp: y_def)
    have q: "flat (quantize arrf) ! i = astype_uint16 (float32 (float32 (y * 65535) + 0.5))"
      using i by (simp add: quantize_def ndarray.map_sel y_def)
    note r = quantize_sample [OF y]
    show ?thesis unfolding q y_def [symmetric] using r by simp
  qed
  moreover have "shape (quantize arrf) = shape arrf"
    by (simp add: quantize_def ndarray.map_sel)
  moreover have "length (flat (quantize arrf)) = length (flat arrf)"
    by (simp add: quantize_def ndarray.map_sel)
  ultimately show ?thesis by blast
qed

lemmas float32_eval = float32_def float32_exponent_def bitlength.simps pow2_def
  round_half_even_def Let_def

theorem quantize_near_nearest_witness:
  "shape (quantize (NDArray [2] [0, 1])) = [2] \<and>
   uint (flat (quantize (NDArray [2] [0, 1])) ! 1) \<le> 65535 \<and>
   \<bar>of_int (uint (flat (quantize (NDArray [2] [0, 1])) ! 1)) - (1 :: real) * 65535\<bar> \<le> 1 / 2 + 1 / 256"
proof -
  have h: "\<forall>v \<in> set (flat (NDArray [2] [0, 1 :: real])). 0 \<le> v \<and> v \<le> 1" by simp
  note Q = quantize_near_nearest [OF h]
  have "shape (quantize (NDArray [2] [0, 1])) = [2]" using Q by simp
  moreover have "(1::nat) < length (flat (NDArray [2] [0, 1 :: real]))" by simp
  then have "uint (flat (quantize (NDArray [2] [0, 1])) ! 1) \<le> 65535 \<and>
    \<bar>of_int (uint (flat (quantize (NDArray [2] [0, 1])) ! 1))
        - flat (NDArray [2] [0, 1 :: real]) ! 1 * 65535\<bar> \<le> 1 / 2 + 1 / 256"
    using Q by blast
  ultimately show ?thesis by simp
qed

text \<open>
  C4 as stated fails: for the single-precision number nearest to 0.9 the product rounds up
  to 58981.5, so 58982 is stored, while \<open>y * 65535\<close> is below 58981.5 and its nearest
  integer is 58981.
\<close>

theorem quantize_not_nearest_counterexample:
  "float32 (9 / 10) = 7549747 / 8388608 \<and>
   (0 :: real) \<le> 7549747 / 8388608 \<and> (7549747 / 8388608 :: real) \<le> 1 \<and>
   flat (quantize (NDArray [1] [7549747 / 8388608])) ! 0 = 58982 \<and>
   round (7549747 / 8388608 * 65535 :: real) = 58981 \<and>
   \<bar>7549747 / 8388608 * 65535 - 58981\<bar> < \<bar>7549747 / 8388608 * 65535 - (58982 :: real)\<bar>"
  by (simp add: quantize_def astype_uint16_def trunc_def float32_eval round_def)

subsection \<open>Percentile stretch estimator\<close>

lemma convex_bounds:
  fixes L U p n g :: real
  assumes "L \<le> p" "p \<le> U" "L \<le> n" "n \<le> U" "0 \<le> g" "g \<le> 1"
  shows "L \<le> p + (n - p) * g \<and> p + (n - p) * g \<le> U"
proof -
  have e: "p + (n - p) * g = (1 - g) * p + g * n" by (simp add: algebra_simps)
  have "(1 - g) * L \<le> (1 - g) * p" "g * L \<le> g * n"
       "(1 - g) * p \<le> (1 - g) * U" "g * n \<le> g * U"
    using assms by (auto intro: mult_left_mono)
  moreover have "(1 - g) * L + g * L = L" "(1 - g) * U + g * U = U"
    by (simp_all add: algebra_simps)
  ultimately show ?thesis unfolding e by linarith
qed

lemma np_percentile_bounds:
  assumes ne: "a \<noteq> []" and q: "0 \<le> q" "q \<le> 100"
    and b: "\<forall>x \<in> set a. L \<le> x \<and> x \<le> U"
  shows "L \<le> np_percentile a q \<and> np_percentile a q \<le> U"
proof -
  define s where "s = sort a"
  define n where "n = length s"
  define v where "v = real (n - 1) * (q / 100)"
  define j where "j = nat \<lfloor>v\<rfloor>"
  define k where "k = min (j + 1) (n - 1)"
  define g where "g = v - of_int \<lfloor>v\<rfloor>"
  have n: "0 < n" using ne by (simp add: n_def s_def)
  have v0: "0 \<le> v" using q by (simp add: v_def)
  have "real (n - 1) * (q / 100) \<le> real (n - 1) * 1"
    using q by (intro mult_left_mono) auto
  then have v1: "v \<le> real (n - 1)" by (simp add: v_def)
  have "\<lfloor>v\<rfloor> \<le> int (n - 1)" using v1 by (simp add: floor_le_iff)
  then have j: "j < n" using n by (simp add: j_def)
  have k: "k < n" using n by (simp add: k_def)
  have "s ! j \<in> set a" "s ! k \<in> set a"
    using j k nth_mem [of j s] nth_mem [of k s] by (simp_all add: n_def s_def)
  then have sj: "L \<le> s ! j" "s ! j \<le> U" and sk: "L \<le> s ! k" "s ! k \<le> U"
    using b by auto
  have g: "0 \<le> g" "g \<le> 1" by (simp_all add: g_def) linarith
  have "np_percentile a q = s ! j + (s ! k - s ! j) * g"
    by (simp add: np_percentile_def Let_def s_def n_def v_def j_def k_def g_def)
  with convex_bounds [OF sj sk g] show ?thesis by simp
qed

lemma u16_to_float_mono: "u16_to_float a \<le> u16_to_float b \<longleftrightarrow> a \<le> b"
  by (simp add: u16_to_float_def word_le_nat_alt del: of_nat_unat)

lemma u16_to_float_inj: "u16_to_float a = u16_to_float b \<longleftrightarrow> a = b"
  by (simp add: u16_to_float_def word_unat_eq_iff del: of_nat_unat)

lemma u16_to_float_range: "0 \<le> u16_to_float a \<and> u16_to_float a \<le> 65535"
proof -
  have "unat a < 2 ^ 16" using unsigned_less [of a, where ?'a = nat] by simp
  then show ?thesis by (simp add: u16_to_float_def del: of_nat_unat)
qed

lemma inner_sample_range:
  fixes v :: uint16
  assumes "0 < v" "v < 65535"
  shows "1 \<le> u16_to_float v \<and> u16_to_float v \<le> 65534"
proof -
  have "0 < unat v" using assms(1) by (simp add: word_less_nat_alt)
  moreover have "unat v < 65535" using assms(2) by (simp add: word_less_nat_alt)
  ultimately show ?thesis by (simp add: u16_to_float_def del: of_nat_unat)
qed

lemma robust_percentiles_cases:
  assumes "robust_percentiles arr pmin pmax = Inr (lo, hi)"
  defines "nz \<equiv> filter (\<lambda>v. v > 0 \<and> v < 65535) (flat arr)"
  shows "(nz = [] \<and> lo = 1 \<and> hi = 99)
       \<or> (nz \<noteq> [] \<and> 0 \<le> pmin \<and> pmin \<le> 100 \<and> 0 \<le> pmax \<and> pmax \<le> 100 \<and>
            lo = np_percentile (map u16_to_float nz) pmin \<and>
            hi = np_percentile (map u16_to_float nz) pmax \<and> lo < hi)
       \<or> (nz \<noteq> [] \<and> 0 \<le> pmin \<and> pmin \<le> 100 \<and> 0 \<le> pmax \<and> pmax \<le> 100 \<and>
            np_percentile (map u16_to_float nz) pmax \<le> np_percentile (map u16_to_float nz) pmin \<and>
            lo = u16_to_float (Min (set nz)) \<and> hi = u16_to_float (Max (set nz)))"
  using assms(1) unfolding nz_def
  by (auto simp: robust_percentiles_def np_percentile_pair_def Let_def split: if_splits)

lemma robust_percentiles_range:
  assumes "robust_percentiles arr pmin pmax = Inr (lo, hi)"
  shows "1 \<le> lo \<and> lo \<le> 65534 \<and> 1 \<le> hi \<and> hi \<le> 65534"
proof -
  define nz where "nz = filter (\<lambda>v. v > 0 \<and> v < 65535) (flat arr)"
  have inner: "\<forall>x \<in> set (map u16_to_float nz). 1 \<le> x \<and> x \<le> 65534"
    using inner_sample_range by (auto simp: nz_def)
  have mm: "Min (set nz) \<in> set nz" "Max (set nz) \<in> set nz" if "nz \<noteq> []"
    using that by (simp_all add: Min_in Max_in del: set_filter)
  from robust_percentiles_cases [OF assms, folded nz_def]
  show ?thesis
  proof (elim disjE conjE)
    assume "lo = 1" "hi = 99"
    then show ?thesis by simp
  next
    assume a: "nz \<noteq> []" "0 \<le> pmin" "pmin \<le> 100" "0 \<le> pmax" "pmax \<le> 100"
      "lo = np_percentile (map u16_to_float nz) pmin" "hi = np_percentile (map u16_to_float nz) pmax"
    then have ne: "map u16_to_float nz \<noteq> []" by simp
    show ?thesis
      using np_percentile_bounds [OF ne a(2,3) inner] np_percentile_bounds [OF ne a(4,5) inner] a(6,7)
      by simp
  next
    assume a: "nz \<noteq> []" "lo = u16_to_float (Min (set nz))" "hi = u16_to_float (Max (set nz))"
    have "0 < Min (set nz) \<and> Min (set nz) < 65535" "0 < Max (set nz) \<and> Max (set nz) < 65535"
      using mm [OF a(1)] unfolding nz_def by (simp_all del: Min_in Max_in)
    then show ?thesis using inner_sample_range a(2,3) by blast
  qed
qed

lemma clip_unit: "0 \<le> clip v 0 1 \<and> clip v 0 1 \<le> 1"
  by (simp add: clip_def min_def max_def)

text \<open>
  C7. The percentile stretch of \<open>process_one\<close> never leaves \<open>[0, 1]\<close> and never divides by
  zero, for every input array and every pair \<open>(lo, hi)\<close> that \<open>robust_percentiles\<close>
  returns, the case \<open>hi = lo\<close> included: the divisor \<open>max 1e-6 (hi - lo)\<close> is positive,
  every quotient is bounded in magnitude by \<open>65535 * 10^6\<close> (far below the largest finite
  single-precision value, so none is infinite), and every clipped sample lies in \<open>[0, 1]\<close>.
\<close>

theorem stretch_finite_in_unit_range:
  assumes "robust_percentiles arr pmin pmax = Inr (lo, hi)"
  shows "0 < max (1 / 10 ^ 6) (hi - lo) \<and>
         shape (stretch arr lo hi) = shape arr \<and>
         length (flat (stretch arr lo hi)) = length (flat arr) \<and>
         (\<forall>v \<in> set (flat (stretch arr lo hi)). 0 \<le> v \<and> v \<le> 1) \<and>
         (\<forall>x \<in> set (flat arr).
            \<bar>(u16_to_float x - lo) / max (1 / 10 ^ 6) (hi - lo)\<bar> \<le> 65535 * 10 ^ 6)"
proof -
  define d where "d = max (1 / 10 ^ 6) (hi - lo)"
  have d: "1 / 10 ^ 6 \<le> d" by (simp add: d_def)
  then have dpos: "0 < d" by (rule order.strict_trans2 [rotated]) simp
  have lo: "1 \<le> lo" "lo \<le> 65534" using robust_percentiles_range [OF assms] by simp_all
  have "\<bar>(u16_to_float x - lo) / d\<bar> \<le> 65535 * 10 ^ 6" for x
  proof -
    have "\<bar>u16_to_float x - lo\<bar> \<le> 65535" using u16_to_float_range [of x] lo by linarith
    moreover have "1 / d \<le> 10 ^ 6"
      using d dpos by (simp add: field_simps)
    ultimately have "\<bar>u16_to_float x - lo\<bar> * (1 / d) \<le> 65535 * 10 ^ 6"
      using dpos by (intro mult_mono) auto
    then show ?thesis using dpos by (simp add: abs_divide)
  qed
  moreover have "\<forall>v \<in> set (flat (stretch arr lo hi)). 0 \<le> v \<and> v \<le> 1"
    using clip_unit by (auto simp: stretch_def Let_def ndarray.map_sel)
  moreover have "shape (stretch arr lo hi) = shape arr"
    "length (flat (stretch arr lo hi)) = length (flat arr)"
    by (simp_all add: stretch_def Let_def ndarray.map_sel)
  ultimately show ?thesis using dpos unfolding d_def by blast
qed

theorem stretch_finite_in_unit_range_witness:
  "robust_percentiles (NDArray [1, 3] [5, 5, 5]) 1 99 = Inr (5, 5) \<and>
   0 < max (1 / 10 ^ 6) (5 - 5 :: real) \<and>
   shape (stretch (NDArray [1, 3] [5, 5, 5]) 5 5) = [1, 3]"
proof -
  have h: "robust_percentiles (NDArray [1, 3] [5, 5, 5]) 1 99 = Inr (5, 5)"
    by (simp add: robust_percentiles_def np_percentile_pair_def np_percentile_def
          u16_to_float_def Let_def)
  from stretch_finite_in_unit_range [OF h] h show ?thesis by simp
qed

lemma robust_percentiles_test_core: "robust_percentiles (NDArray [1, 4] [0, 10, 100, 65535]) 1 99 = Inr (109/10, 991/10)"
  by (simp add: robust_percentiles_def np_percentile_pair_def np_percentile_def u16_to_float_def Let_def)

lemma stretch_const: "stretch (NDArray [1, 3] [5, 5, 5]) 5 5 = NDArray [1, 3] [0, 0, 0]"
  by (simp add: stretch_def clip_def u16_to_float_def)

text \<open>
  C5. For every input array made only of the no-data sentinel 0, or only of the saturation
  sentinel 65535, and every percentile pair (valid or not), \<open>robust_percentiles\<close> does not
  raise and returns the default range \<open>(1, 99)\<close>, whose bounds are strictly ordered.
\<close>

theorem degenerate_array_default_range:
  assumes "(\<forall>v \<in> set (flat arr_u16). v = 0) \<or> (\<forall>v \<in> set (flat arr_u16). v = 65535)"
  shows "robust_percentiles arr_u16 pmin pmax = Inr (1, 99) \<and> (1 :: real) < 99"
proof -
  have "filter (\<lambda>v. v > 0 \<and> v < 65535) (flat arr_u16) = []"
    using assms by (auto simp: filter_empty_conv)
  then show ?thesis by (simp add: robust_percentiles_def)
qed

theorem degenerate_array_default_range_witness:
  "robust_percentiles (NDArray [2, 2] [0, 0, 0, 0]) 1 99 = Inr (1, 99) \<and>
   robust_percentiles (NDArray [1, 2] [65535, 65535]) 150 (- 3) = Inr (1, 99)"
proof -
  have z: "(\<forall>v \<in> set (flat (NDArray [2, 2] [0, 0, 0, 0 :: uint16])). v = 0) \<or>
           (\<forall>v \<in> set (flat (NDArray [2, 2] [0, 0, 0, 0 :: uint16])). v = 65535)" by simp
  have s: "(\<forall>v \<in> set (flat (NDArray [1, 2] [65535, 65535 :: uint16])). v = 0) \<or>
           (\<forall>v \<in> set (flat (NDArray [1, 2] [65535, 65535 :: uint16])). v = 65535)" by simp
  from degenerate_array_default_range [OF z, of 1 99]
       degenerate_array_default_range [OF s, of 150 "- 3"]
  show ?thesis by simp
qed

lemma robust_percentiles_ordered_iff:
  assumes "0 \<le> pmin" "pmin < pmax" "pmax \<le> 100"
  shows "\<exists>lo hi. robust_percentiles arr_u16 pmin pmax = Inr (lo, hi) \<and> lo \<le> hi \<and>
           (lo = hi \<longleftrightarrow>
              (\<exists>c. 0 < c \<and> c < 65535 \<and> c \<in> set (flat arr_u16) \<and>
                   (\<forall>v \<in> set (flat arr_u16). v = 0 \<or> v = 65535 \<or> v = c)))"
proof -
  define nz where "nz = filter (\<lambda>v. v > 0 \<and> v < 65535) (flat arr_u16)"
  define const where "const \<longleftrightarrow> (\<exists>c. 0 < c \<and> c < 65535 \<and> c \<in> set (flat arr_u16) \<and>
                   (\<forall>v \<in> set (flat arr_u16). v = 0 \<or> v = 65535 \<or> v = c))"
  have const_iff: "const \<longleftrightarrow> nz \<noteq> [] \<and> (\<forall>v \<in> set nz. \<forall>w \<in> set nz. v = w)"
  proof
    assume const
    then obtain c where c: "0 < c" "c < 65535" "c \<in> set (flat arr_u16)"
      "\<forall>v \<in> set (flat arr_u16). v = 0 \<or> v = 65535 \<or> v = c"
      unfolding const_def by blast
    then have "c \<in> set nz" by (simp add: nz_def)
    then have "nz \<noteq> []" by auto
    moreover have allc: "\<forall>v \<in> set nz. v = c" using c(4) by (auto simp: nz_def)
    have "\<forall>v \<in> set nz. \<forall>w \<in> set nz. v = w" using allc by metis
    ultimately show "nz \<noteq> [] \<and> (\<forall>v \<in> set nz. \<forall>w \<in> set nz. v = w)" by blast
  next
    assume a: "nz \<noteq> [] \<and> (\<forall>v \<in> set nz. \<forall>w \<in> set nz. v = w)"
    then obtain c where c: "c \<in> set nz" by (cases nz) auto
    then have "0 < c" "c < 65535" "c \<in> set (flat arr_u16)" by (simp_all add: nz_def)
    moreover have "v = 0 \<or> v = 65535 \<or> v = c" if "v \<in> set (flat arr_u16)" for v
    proof (cases "0 < v \<and> v < 65535")
      case True
      then have "v \<in> set nz" using that by (simp add: nz_def)
      then show ?thesis using a c by blast
    next
      case False
      then have "v = 0 \<or> \<not> v < 65535" using word_neq_0_conv by blast
      moreover have "v \<le> 65535"
        using unsigned_less [of v, where ?'a = nat] by (simp add: word_le_nat_alt)
      ultimately show ?thesis by auto
    qed
    ultimately show const unfolding const_def by blast
  qed
  show ?thesis
  proof (cases "nz = []")
    case True
    then have "robust_percentiles arr_u16 pmin pmax = Inr (1, 99)"
      by (simp add: robust_percentiles_def nz_def)
    moreover have "\<not> const" using True const_iff by simp
    ultimately show ?thesis unfolding const_def by auto
  next
    case False
    define plo where "plo = np_percentile (map u16_to_float nz) pmin"
    define phi where "phi = np_percentile (map u16_to_float nz) pmax"
    have valid: "0 \<le> pmin \<and> pmin \<le> 100 \<and> 0 \<le> pmax \<and> pmax \<le> 100" using assms by simp
    have mn: "Min (set nz) \<in> set nz" and mx: "Max (set nz) \<in> set nz"
      using False by (simp_all add: Min_in Max_in)
    have mnmx: "Min (set nz) \<le> Max (set nz)" using False by (simp add: Min_le mx)
    show ?thesis
    proof (cases "phi \<le> plo")
      case True
      then have r: "robust_percentiles arr_u16 pmin pmax
                 = Inr (u16_to_float (Min (set nz)), u16_to_float (Max (set nz)))"
        using False valid
        by (simp add: robust_percentiles_def np_percentile_pair_def nz_def [symmetric]
              plo_def [symmetric] phi_def [symmetric])
      have "Min (set nz) = Max (set nz) \<longleftrightarrow> (\<forall>v \<in> set nz. \<forall>w \<in> set nz. v = w)"
      proof
        assume e: "Min (set nz) = Max (set nz)"
        have "v = Min (set nz)" if "v \<in> set nz" for v
        proof -
          have "Min (set nz) \<le> v" "v \<le> Max (set nz)" using that by simp_all
          then show ?thesis using e by simp
        qed
        then show "\<forall>v \<in> set nz. \<forall>w \<in> set nz. v = w" by metis
      next
        assume "\<forall>v \<in> set nz. \<forall>w \<in> set nz. v = w"
        then show "Min (set nz) = Max (set nz)" using mn mx by blast
      qed
      then have "u16_to_float (Min (set nz)) = u16_to_float (Max (set nz)) \<longleftrightarrow> const"
        using const_iff False by (simp add: u16_to_float_inj)
      moreover have "u16_to_float (Min (set nz)) \<le> u16_to_float (Max (set nz))"
        using mnmx by (simp add: u16_to_float_mono)
      ultimately show ?thesis using r unfolding const_def by blast
    next
      case lt: False
      then have r: "robust_percentiles arr_u16 pmin pmax = Inr (plo, phi)"
        using False valid
        by (simp add: robust_percentiles_def np_percentile_pair_def nz_def [symmetric]
              plo_def [symmetric] phi_def [symmetric])
      have "\<not> const"
      proof
        assume const
        then have cc: "nz \<noteq> []" "\<forall>v \<in> set nz. \<forall>w \<in> set nz. v = w"
          using const_iff by blast+
        obtain c where c: "c \<in> set nz" using cc(1) by (cases nz) auto
        have b: "\<forall>x \<in> set (map u16_to_float nz). u16_to_float c \<le> x \<and> x \<le> u16_to_float c"
        proof
          fix x assume "x \<in> set (map u16_to_float nz)"
          then obtain v where v: "v \<in> set nz" "x = u16_to_float v" by auto
          then have "v = c" using cc(2) c by blast
          then show "u16_to_float c \<le> x \<and> x \<le> u16_to_float c" using v(2) by simp
        qed
        have ne: "map u16_to_float nz \<noteq> []" using False by simp
        have "u16_to_float c \<le> plo \<and> plo \<le> u16_to_float c"
          unfolding plo_def using valid by (intro np_percentile_bounds [OF ne _ _ b]) simp_all
        moreover have "u16_to_float c \<le> phi \<and> phi \<le> u16_to_float c"
          unfolding phi_def using valid by (intro np_percentile_bounds [OF ne _ _ b]) simp_all
        ultimately have "plo = u16_to_float c" "phi = u16_to_float c" by linarith+
        with lt show False by simp
      qed
      with r lt show ?thesis unfolding const_def by auto
    qed
  qed
qed

lemma robust_percentiles_no_inner:
  assumes "\<forall>v \<in> set (flat arr_u16). v = 0 \<or> v = 65535"
  shows "robust_percentiles arr_u16 pmin pmax = Inr (1, 99)"
proof -
  have "filter (\<lambda>v. v > 0 \<and> v < 65535) (flat arr_u16) = []"
    using assms by (auto simp: filter_empty_conv)
  then show ?thesis by (simp add: robust_percentiles_def)
qed

lemma robust_percentiles_constant:
  assumes p: "0 \<le> pmin" "pmin \<le> 100" "0 \<le> pmax" "pmax \<le> 100"
    and c: "0 < c" "c < 65535" "c \<in> set (flat arr_u16)"
    and a: "\<forall>v \<in> set (flat arr_u16). v = 0 \<or> v = 65535 \<or> v = c"
  shows "robust_percentiles arr_u16 pmin pmax = Inr (u16_to_float c, u16_to_float c)"
proof -
  define nz where "nz = filter (\<lambda>v. v > 0 \<and> v < 65535) (flat arr_u16)"
  have cin: "c \<in> set nz" using c by (simp add: nz_def)
  have allc: "v = c" if "v \<in> set nz" for v using that a by (auto simp: nz_def)
  have ne: "nz \<noteq> []" using cin by auto
  have s: "set nz = {c}"
  proof
    show "set nz \<subseteq> {c}" using allc by blast
    show "{c} \<subseteq> set nz" using cin by blast
  qed
  have b: "\<forall>x \<in> set (map u16_to_float nz). u16_to_float c \<le> x \<and> x \<le> u16_to_float c"
    by (simp only: set_map s) simp
  have ne': "map u16_to_float nz \<noteq> []" using ne by simp
  have lo: "np_percentile (map u16_to_float nz) pmin = u16_to_float c"
    using np_percentile_bounds [OF ne' p(1,2) b] by linarith
  have hi: "np_percentile (map u16_to_float nz) pmax = u16_to_float c"
    using np_percentile_bounds [OF ne' p(3,4) b] by linarith
  have pp: "np_percentile_pair (map u16_to_float nz) pmin pmax = Inr (u16_to_float c, u16_to_float c)"
    using p lo hi by (simp add: np_percentile_pair_def)
  have mm: "Min (set nz) = c" "Max (set nz) = c" by (simp_all only: s Min_singleton Max_singleton)
  have "robust_percentiles arr_u16 pmin pmax =
     (if length nz = 0 then Inr (1, 99)
      else
        case np_percentile_pair (map u16_to_float nz) pmin pmax of
          Inl e \<Rightarrow> Inl e
        | Inr (lo, hi) \<Rightarrow>
            if hi \<le> lo
            then Inr (u16_to_float (Min (set nz)), u16_to_float (Max (set nz)))
            else Inr (lo, hi))"
    unfolding robust_percentiles_def nz_def Let_def ..
  also have "\<dots> = Inr (u16_to_float c, u16_to_float c)"
    unfolding pp mm using ne by simp
  finally show ?thesis .
qed

text \<open>
  C2, as amended. For every percentile pair with \<open>0 \<le> pmin < pmax \<le> 100\<close> and every 16-bit
  input array, \<open>robust_percentiles\<close> returns a pair \<open>(lo, hi)\<close> with \<open>lo \<le> hi\<close>, and
  \<open>lo = hi\<close> exactly when the samples strictly between 0 and 65535 are not empty and all
  share one value; then \<open>lo\<close> and \<open>hi\<close> are that value. An array without such samples, the
  entirely saturated one included, gets \<open>(1, 99)\<close>.
\<close>

theorem robust_percentiles_ordered:
  assumes "0 \<le> pmin" "pmin < pmax" "pmax \<le> 100"
  shows "\<exists>lo hi. robust_percentiles arr_u16 pmin pmax = Inr (lo, hi) \<and> lo \<le> hi \<and>
           (lo = hi \<longleftrightarrow>
              (\<exists>c. 0 < c \<and> c < 65535 \<and> c \<in> set (flat arr_u16) \<and>
                   (\<forall>v \<in> set (flat arr_u16). v = 0 \<or> v = 65535 \<or> v = c))) \<and>
           (\<forall>c. 0 < c \<and> c < 65535 \<and> c \<in> set (flat arr_u16) \<and>
                (\<forall>v \<in> set (flat arr_u16). v = 0 \<or> v = 65535 \<or> v = c) \<longrightarrow>
                lo = u16_to_float c \<and> hi = u16_to_float c) \<and>
           ((\<forall>v \<in> set (flat arr_u16). v = 0 \<or> v = 65535) \<longrightarrow> lo = 1 \<and> hi = 99)"
proof -
  from robust_percentiles_ordered_iff [OF assms, of arr_u16]
  obtain lo hi where r: "robust_percentiles arr_u16 pmin pmax = Inr (lo, hi)" "lo \<le> hi"
    "lo = hi \<longleftrightarrow>
              (\<exists>c. 0 < c \<and> c < 65535 \<and> c \<in> set (flat arr_u16) \<and>
                   (\<forall>v \<in> set (flat arr_u16). v = 0 \<or> v = 65535 \<or> v = c))"
    by blast
  have p: "0 \<le> pmin" "pmin \<le> 100" "0 \<le> pmax" "pmax \<le> 100" using assms by simp_all
  have k: "lo = u16_to_float c \<and> hi = u16_to_float c"
    if "0 < c" "c < 65535" "c \<in> set (flat arr_u16)"
       "\<forall>v \<in> set (flat arr_u16). v = 0 \<or> v = 65535 \<or> v = c" for c
    using robust_percentiles_constant [OF p that] r(1) by simp
  have n: "lo = 1 \<and> hi = 99" if "\<forall>v \<in> set (flat arr_u16). v = 0 \<or> v = 65535"
    using robust_percentiles_no_inner [OF that, of pmin pmax] r(1) by simp
  from r k n show ?thesis by blast
qed

theorem robust_percentiles_ordered_witness:
  "(0 :: real) \<le> 1 \<and> (1 :: real) < 99 \<and> (99 :: real) \<le> 100 \<and>
   robust_percentiles (NDArray [1, 4] [0, 7, 7, 65535]) 1 99 = Inr (7, 7) \<and>
   robust_percentiles (NDArray [1, 3] [0, 65535, 0]) 1 99 = Inr (1, 99)"
proof -
  have h: "(0 :: real) \<le> 1" "(1 :: real) < 99" "(99 :: real) \<le> 100" by simp_all
  have c: "(0 :: uint16) < 7 \<and> (7 :: uint16) < 65535 \<and> 7 \<in> set (flat (NDArray [1, 4] [0, 7, 7, 65535 :: uint16])) \<and>
     (\<forall>v \<in> set (flat (NDArray [1, 4] [0, 7, 7, 65535 :: uint16])). v = 0 \<or> v = 65535 \<or> v = 7)"
    by simp
  have n: "\<forall>v \<in> set (flat (NDArray [1, 3] [0, 65535, 0 :: uint16])). v = 0 \<or> v = 65535" by simp
  have a: "robust_percentiles (NDArray [1, 4] [0, 7, 7, 65535]) 1 99 = Inr (u16_to_float 7, u16_to_float 7)"
  proof -
    from robust_percentiles_ordered [OF h, of "NDArray [1, 4] [0, 7, 7, 65535]"]
    obtain lo hi where r: "robust_percentiles (NDArray [1, 4] [0, 7, 7, 65535]) 1 99 = Inr (lo, hi)"
      and k: "\<forall>c. 0 < c \<and> c < 65535 \<and> c \<in> set (flat (NDArray [1, 4] [0, 7, 7, 65535 :: uint16])) \<and>
                (\<forall>v \<in> set (flat (NDArray [1, 4] [0, 7, 7, 65535 :: uint16])). v = 0 \<or> v = 65535 \<or> v = c) \<longrightarrow>
                lo = u16_to_float c \<and> hi = u16_to_float c"
      by blast
    from k c r show ?thesis by blast
  qed
  have b: "robust_percentiles (NDArray [1, 3] [0, 65535, 0]) 1 99 = Inr (1, 99)"
  proof -
    from robust_percentiles_ordered [OF h, of "NDArray [1, 3] [0, 65535, 0]"]
    obtain lo hi where r: "robust_percentiles (NDArray [1, 3] [0, 65535, 0]) 1 99 = Inr (lo, hi)"
      and k: "(\<forall>v \<in> set (flat (NDArray [1, 3] [0, 65535, 0 :: uint16])). v = 0 \<or> v = 65535)
                \<longrightarrow> lo = 1 \<and> hi = 99"
      by blast
    from k n r show ?thesis by simp
  qed
  from a b h show ?thesis by (simp add: u16_to_float_def)
qed

text \<open>
  C2 as stated fails: an array whose samples all equal 5 is not the saturated image, and
  the estimator returns \<open>(5, 5)\<close> for it.
\<close>

theorem robust_percentiles_constant_counterexample:
  "robust_percentiles (NDArray [1, 3] [5, 5, 5]) 1 99 = Inr (5, 5) \<and>
   (5 :: uint16) \<noteq> 65535 \<and> \<not> ((5 :: real) < 5)"
  by (simp add: robust_percentiles_def np_percentile_pair_def np_percentile_def
        u16_to_float_def Let_def)

subsection \<open>Sidecar files\<close>

lemma lookup_write_file: "lookup (write_file p f w) q = (if q = p then Some f else lookup w q)"
  by (simp add: lookup_def write_file_def)

lemma path_name_joinpath: "path_name (joinpath d n) = n"
  by (simp add: path_name_def joinpath_def)

lemma joinpath_inj: "joinpath d n = joinpath d' n' \<longleftrightarrow> d = d' \<and> n = n'"
  by (simp add: joinpath_def)

lemma with_name_Inr: "with_name p n = Inr c \<Longrightarrow> c = butlast p @ [n] \<and> path_name c = n"
  by (auto simp: with_name_def path_name_def split: if_splits)

lemma shutil_copy2_Inr:
  "shutil_copy2 cand dst w = (Inr u, w') \<Longrightarrow>
     \<exists>f. lookup w cand = Some f \<and> w' = write_file dst f w"
  by (auto simp: shutil_copy2_def split: option.splits if_splits)

lemma shutil_copy2_Inl: "shutil_copy2 cand dst w = (Inl e, w') \<Longrightarrow> w' = w"
  by (auto simp: shutil_copy2_def split: option.splits if_splits)

text \<open>One round of the loop leaves every file that was there as it was.\<close>

lemma guarded_copy_keeps:
  assumes "(if \<not> path_exists dst w then shutil_copy2 cand dst w else (Inr (), w)) = (r, w')"
    and "lookup w p = Some f"
  shows "lookup w' p = Some f"
proof (cases "path_exists dst w")
  case True
  with assms show ?thesis by simp
next
  case False
  then have ne: "p \<noteq> dst" using assms(2) by (auto simp: path_exists_def)
  from False assms(1) have c: "shutil_copy2 cand dst w = (r, w')" by simp
  show ?thesis
  proof (cases r)
    case (Inl e)
    with c have "w' = w" by (auto dest: shutil_copy2_Inl)
    with assms(2) show ?thesis by simp
  next
    case (Inr u)
    with c obtain g where "w' = write_file dst g w" by (auto dest: shutil_copy2_Inr)
    with ne assms(2) show ?thesis by (simp add: lookup_write_file)
  qed
qed

lemma copy_sidecars_loop_skip:
  assumes "with_name src_tif (base @ suf) = Inr cand" "\<not> path_exists cand w"
  shows "copy_sidecars_loop src_tif base dst_dir (suf # sufs) copied w
       = copy_sidecars_loop src_tif base dst_dir sufs copied w"
  using assms by simp

lemma copy_sidecars_loop_step:
  assumes "with_name src_tif (base @ suf) = Inr cand" "path_exists cand w"
    and "(if \<not> path_exists (joinpath dst_dir (base @ suf)) w
          then shutil_copy2 cand (joinpath dst_dir (base @ suf)) w else (Inr (), w)) = (r1, w1)"
  shows "copy_sidecars_loop src_tif base dst_dir (suf # sufs) copied w
       = (case r1 of Inl e \<Rightarrow> (Inl e, w1)
          | Inr u \<Rightarrow> copy_sidecars_loop src_tif base dst_dir sufs (copied @ [base @ suf]) w1)"
proof -
  have n: "path_name cand = base @ suf" using with_name_Inr [OF assms(1)] by blast
  show ?thesis
    using assms by (simp add: n Let_def path_name_joinpath split: sum.splits)
qed

lemma copy_sidecars_loop_keeps:
  "copy_sidecars_loop src_tif base dst_dir sufs copied w = (r, w') \<Longrightarrow>
   lookup w p = Some f \<Longrightarrow> lookup w' p = Some f"
proof (induction sufs arbitrary: copied w)
  case Nil
  then show ?case by simp
next
  case (Cons suf sufs)
  show ?case
  proof (cases "with_name src_tif (base @ suf)")
    case (Inl e)
    with Cons.prems show ?thesis by simp
  next
    case (Inr cand)
    show ?thesis
    proof (cases "path_exists cand w")
      case False
      with Inr Cons.prems have "copy_sidecars_loop src_tif base dst_dir sufs copied w = (r, w')"
        by simp
      from Cons.IH [OF this Cons.prems(2)] show ?thesis .
    next
      case True
      obtain r1 w1 where g: "(if \<not> path_exists (joinpath dst_dir (base @ suf)) w
          then shutil_copy2 cand (joinpath dst_dir (base @ suf)) w else (Inr (), w)) = (r1, w1)"
        by (meson surj_pair)
      have k: "lookup w1 p = Some f" using guarded_copy_keeps [OF g Cons.prems(2)] .
      note st = copy_sidecars_loop_step [OF Inr True g, of sufs copied]
      show ?thesis
      proof (cases r1)
        case (Inl e)
        with st Cons.prems(1) have "w' = w1" by simp
        with k show ?thesis by simp
      next
        case r1: (Inr u)
        with st Cons.prems(1)
        have "copy_sidecars_loop src_tif base dst_dir sufs (copied @ [base @ suf]) w1 = (r, w')"
          by simp
        from Cons.IH [OF this k] show ?thesis .
      qed
    qed
  qed
qed

text \<open>A candidate exists after a round exactly if it existed before.\<close>

lemma guarded_copy_candidates:
  assumes g: "(if \<not> path_exists (joinpath dst_dir (base @ suf)) w
          then shutil_copy2 (butlast src_tif @ [base @ suf]) (joinpath dst_dir (base @ suf)) w
          else (Inr (), w)) = (r1, w1)"
    and ex: "path_exists (butlast src_tif @ [base @ suf]) w"
  shows "path_exists (butlast src_tif @ [base @ s]) w1 \<longleftrightarrow> path_exists (butlast src_tif @ [base @ s]) w"
proof (cases "path_exists (joinpath dst_dir (base @ suf)) w")
  case True
  with g show ?thesis by simp
next
  case False
  with g have c: "shutil_copy2 (butlast src_tif @ [base @ suf]) (joinpath dst_dir (base @ suf)) w = (r1, w1)"
    by simp
  show ?thesis
  proof (cases r1)
    case (Inl e)
    with c have "w1 = w" by (auto dest: shutil_copy2_Inl)
    then show ?thesis by simp
  next
    case (Inr u)
    with c obtain f where w1: "w1 = write_file (joinpath dst_dir (base @ suf)) f w"
      by (auto dest: shutil_copy2_Inr)
    show ?thesis
    proof (cases "butlast src_tif @ [base @ s] = joinpath dst_dir (base @ suf)")
      case True
      then have "s = suf" by (simp add: joinpath_def)
      with True ex False show ?thesis by simp
    next
      case False
      then show ?thesis by (simp add: w1 path_exists_def lookup_write_file)
    qed
  qed
qed

lemma copy_sidecars_loop_names:
  assumes "path_name src_tif \<noteq> []"
  shows "copy_sidecars_loop src_tif base dst_dir sufs copied w = (Inr names, w') \<Longrightarrow>
     names = copied @ map (\<lambda>suf. base @ suf)
               (filter (\<lambda>suf. path_exists (butlast src_tif @ [base @ suf]) w) sufs)"
proof (induction sufs arbitrary: copied w)
  case Nil
  then show ?case by simp
next
  case (Cons suf sufs)
  define cand where "cand = butlast src_tif @ [base @ suf]"
  have wn: "with_name src_tif (base @ suf) = Inr cand"
    using assms by (simp add: with_name_def cand_def)
  show ?case
  proof (cases "path_exists cand w")
    case False
    with wn Cons.prems have "copy_sidecars_loop src_tif base dst_dir sufs copied w = (Inr names, w')"
      by simp
    from Cons.IH [OF this] False show ?thesis by (simp add: cand_def)
  next
    case True
    obtain r1 w1 where g: "(if \<not> path_exists (joinpath dst_dir (base @ suf)) w
          then shutil_copy2 cand (joinpath dst_dir (base @ suf)) w else (Inr (), w)) = (r1, w1)"
      by (meson surj_pair)
    note st = copy_sidecars_loop_step [OF wn True g, of sufs copied]
    have inv: "path_exists (butlast src_tif @ [base @ s]) w1 \<longleftrightarrow> path_exists (butlast src_tif @ [base @ s]) w" for s
      using guarded_copy_candidates [OF g [unfolded cand_def] True [unfolded cand_def]] .
    show ?thesis
    proof (cases r1)
      case (Inl e)
      with st Cons.prems show ?thesis by simp
    next
      case (Inr u)
      with st Cons.prems
      have "copy_sidecars_loop src_tif base dst_dir sufs (copied @ [base @ suf]) w1 = (Inr names, w')"
        by simp
      from Cons.IH [OF this] True show ?thesis by (simp add: inv cand_def)
    qed
  qed
qed

lemma copy_sidecars_loop_copies:
  assumes "path_name src_tif \<noteq> []"
  shows "copy_sidecars_loop src_tif base dst_dir sufs copied w = (Inr names, w') \<Longrightarrow>
     distinct sufs \<Longrightarrow> s \<in> set sufs \<Longrightarrow>
     path_exists (butlast src_tif @ [base @ s]) w \<Longrightarrow>
     \<not> path_exists (joinpath dst_dir (base @ s)) w \<Longrightarrow>
     lookup w' (joinpath dst_dir (base @ s)) = lookup w (butlast src_tif @ [base @ s])"
proof (induction sufs arbitrary: copied w)
  case Nil
  then show ?case by simp
next
  case (Cons suf sufs)
  define cand where "cand = butlast src_tif @ [base @ suf]"
  have wn: "with_name src_tif (base @ suf) = Inr cand"
    using assms by (simp add: with_name_def cand_def)
  obtain f where f: "lookup w (butlast src_tif @ [base @ s]) = Some f"
    using Cons.prems(4) by (auto simp: path_exists_def)
  show ?case
  proof (cases "path_exists cand w")
    case False
    with wn Cons.prems(1) have l: "copy_sidecars_loop src_tif base dst_dir sufs copied w = (Inr names, w')"
      by simp
    have "s \<noteq> suf" using False Cons.prems(4) by (auto simp: cand_def)
    then have "s \<in> set sufs" using Cons.prems(3) by simp
    from Cons.IH [OF l _ this Cons.prems(4,5)] Cons.prems(2) show ?thesis by simp
  next
    case True
    obtain r1 w1 where g: "(if \<not> path_exists (joinpath dst_dir (base @ suf)) w
          then shutil_copy2 cand (joinpath dst_dir (base @ suf)) w else (Inr (), w)) = (r1, w1)"
      by (meson surj_pair)
    note st = copy_sidecars_loop_step [OF wn True g, of sufs copied]
    obtain u where r1: "r1 = Inr u" using st Cons.prems(1) by (cases r1) auto
    with st Cons.prems(1)
    have l: "copy_sidecars_loop src_tif base dst_dir sufs (copied @ [base @ suf]) w1 = (Inr names, w')"
      by simp
    show ?thesis
    proof (cases "s = suf")
      case True
      with g r1 Cons.prems(5)
      have "shutil_copy2 (butlast src_tif @ [base @ s]) (joinpath dst_dir (base @ s)) w = (Inr u, w1)"
        by (simp add: cand_def)
      then have "w1 = write_file (joinpath dst_dir (base @ s)) f w"
        using f by (auto dest: shutil_copy2_Inr)
      then have "lookup w1 (joinpath dst_dir (base @ s)) = Some f" by (simp add: lookup_write_file)
      from copy_sidecars_loop_keeps [OF l this] f show ?thesis by simp
    next
      case False
      then have mem: "s \<in> set sufs" using Cons.prems(3) by simp
      have k: "lookup w1 (butlast src_tif @ [base @ s]) = Some f"
        using guarded_copy_keeps [OF g f] .
      then have e1: "path_exists (butlast src_tif @ [base @ s]) w1" by (simp add: path_exists_def)
      have e2: "\<not> path_exists (joinpath dst_dir (base @ s)) w1"
      proof (cases "path_exists (joinpath dst_dir (base @ suf)) w")
        case True
        with g Cons.prems(5) show ?thesis by simp
      next
        case nx: False
        with g r1 have "shutil_copy2 cand (joinpath dst_dir (base @ suf)) w = (Inr u, w1)" by simp
        then obtain h where "w1 = write_file (joinpath dst_dir (base @ suf)) h w"
          by (auto dest: shutil_copy2_Inr)
        with False Cons.prems(5) show ?thesis
          by (simp add: path_exists_def lookup_write_file joinpath_def)
      qed
      from Cons.IH [OF l _ mem e1 e2] Cons.prems(2) k f show ?thesis by simp
    qed
  qed
qed

lemma copy_sidecars_Inr_name:
  assumes "fst (copy_sidecars src_tif dst_dir w) = Inr names"
  shows "path_name src_tif \<noteq> []"
proof
  assume "path_name src_tif = []"
  then have "fst (copy_sidecars src_tif dst_dir w) = Inl (ValueError ''path has an empty name'')"
    by (simp add: copy_sidecars_def SIDECAR_SUFFIXES_def with_name_def)
  with assms show False by simp
qed

lemma distinct_SIDECAR_SUFFIXES: "distinct SIDECAR_SUFFIXES"
  by (simp add: SIDECAR_SUFFIXES_def)

text \<open>
  C8. For every source raster and output directory, \<open>copy_sidecars\<close> does not overwrite a
  destination sidecar that already exists: every file that exists before the call has the
  same content after it (whether or not the call raises), while a candidate that exists
  next to the source and has no destination yet is copied to it.
\<close>

theorem copy_sidecars_first_write_wins:
  "(\<forall>p f. lookup w p = Some f \<longrightarrow> lookup (snd (copy_sidecars src_tif dst_dir w)) p = Some f) \<and>
   (\<forall>names. fst (copy_sidecars src_tif dst_dir w) = Inr names \<longrightarrow>
      (\<forall>suf \<in> set SIDECAR_SUFFIXES. \<forall>cand.
         with_name src_tif (take (length (path_name src_tif) - 4) (path_name src_tif) @ suf) = Inr cand \<and>
         path_exists cand w \<and> \<not> path_exists (joinpath dst_dir (path_name cand)) w \<longrightarrow>
         lookup (snd (copy_sidecars src_tif dst_dir w)) (joinpath dst_dir (path_name cand))
           = lookup w cand))"
proof -
  define base where "base = take (length (path_name src_tif) - 4) (path_name src_tif)"
  obtain r w' where c: "copy_sidecars_loop src_tif base dst_dir SIDECAR_SUFFIXES [] w = (r, w')"
    by (meson surj_pair)
  then have cs: "copy_sidecars src_tif dst_dir w = (r, w')"
    by (simp add: copy_sidecars_def base_def)
  have keep: "lookup w' p = Some f" if "lookup w p = Some f" for p f
    using copy_sidecars_loop_keeps [OF c that] .
  have copy: "lookup w' (joinpath dst_dir (path_name cand)) = lookup w cand"
    if "r = Inr names" "suf \<in> set SIDECAR_SUFFIXES" "with_name src_tif (base @ suf) = Inr cand"
      "path_exists cand w" "\<not> path_exists (joinpath dst_dir (path_name cand)) w"
    for names suf cand
  proof -
    have n: "path_name src_tif \<noteq> []" using that(3) by (auto simp: with_name_def split: if_splits)
    have cand: "cand = butlast src_tif @ [base @ suf]" "path_name cand = base @ suf"
      using with_name_Inr [OF that(3)] by blast+
    have e1: "path_exists (butlast src_tif @ [base @ suf]) w" using that(4) cand(1) by simp
    have e2: "\<not> path_exists (joinpath dst_dir (base @ suf)) w" using that(5) cand(2) by simp
    from copy_sidecars_loop_copies [OF n c [unfolded that(1)] distinct_SIDECAR_SUFFIXES that(2) e1 e2]
    show ?thesis using cand by simp
  qed
  show ?thesis
    unfolding cs base_def [symmetric] using keep copy by auto
qed

text \<open>
  C9. The list returned by \<open>copy_sidecars\<close> names every sidecar candidate that exists next
  to the source raster, in the order of the suffix list, whether or not its copy was
  skipped: a candidate whose destination already existed is in the list although the
  destination was left as it was, so the report can name files not written in this run.
\<close>

theorem copy_sidecars_reports_every_candidate:
  assumes "fst (copy_sidecars src_tif dst_dir w) = Inr names"
  shows "names = map (\<lambda>suf. take (length (path_name src_tif) - 4) (path_name src_tif) @ suf)
                   (filter (\<lambda>suf. path_exists (butlast src_tif @
                        [take (length (path_name src_tif) - 4) (path_name src_tif) @ suf]) w)
                      SIDECAR_SUFFIXES) \<and>
         (\<forall>suf \<in> set SIDECAR_SUFFIXES. \<forall>cand.
            with_name src_tif (take (length (path_name src_tif) - 4) (path_name src_tif) @ suf) = Inr cand \<and>
            path_exists cand w \<and> path_exists (joinpath dst_dir (path_name cand)) w \<longrightarrow>
            path_name cand \<in> set names \<and>
            lookup (snd (copy_sidecars src_tif dst_dir w)) (joinpath dst_dir (path_name cand))
              = lookup w (joinpath dst_dir (path_name cand)))"
proof -
  define base where "base = take (length (path_name src_tif) - 4) (path_name src_tif)"
  obtain w' where c: "copy_sidecars_loop src_tif base dst_dir SIDECAR_SUFFIXES [] w = (Inr names, w')"
    using assms by (cases "copy_sidecars_loop src_tif base dst_dir SIDECAR_SUFFIXES [] w")
      (simp add: copy_sidecars_def base_def)
  then have cs: "copy_sidecars src_tif dst_dir w = (Inr names, w')"
    by (simp add: copy_sidecars_def base_def)
  have n: "path_name src_tif \<noteq> []" using copy_sidecars_Inr_name [OF assms] .
  have names: "names = map (\<lambda>suf. base @ suf)
      (filter (\<lambda>suf. path_exists (butlast src_tif @ [base @ suf]) w) SIDECAR_SUFFIXES)"
    using copy_sidecars_loop_names [OF n c] by simp
  have skipped: "path_name cand \<in> set names \<and>
      lookup w' (joinpath dst_dir (path_name cand)) = lookup w (joinpath dst_dir (path_name cand))"
    if "suf \<in> set SIDECAR_SUFFIXES" "with_name src_tif (base @ suf) = Inr cand"
      "path_exists cand w" "path_exists (joinpath dst_dir (path_name cand)) w" for suf cand
  proof -
    have cand: "cand = butlast src_tif @ [base @ suf]" "path_name cand = base @ suf"
      using with_name_Inr [OF that(2)] by blast+
    have ex: "path_exists (joinpath dst_dir (path_name cand)) w" using that(4) .
    have e1: "path_exists (butlast src_tif @ [base @ suf]) w" using that(3) cand(1) by simp
    have mem: "base @ suf \<in> set names" using that(1) e1 unfolding names by auto
    obtain f where f: "lookup w (joinpath dst_dir (path_name cand)) = Some f"
      using ex by (auto simp: path_exists_def)
    from copy_sidecars_loop_keeps [OF c f] mem f cand(2) show ?thesis by simp
  qed
  show ?thesis
    unfolding cs base_def [symmetric] using names skipped by auto
qed

lemmas sidecar_eval = sidecar_world_def copy_sidecars_def SIDECAR_SUFFIXES_def with_name_def path_name_def
      path_exists_def lookup_def shutil_copy2_def write_file_def joinpath_def quiet_world_def

theorem copy_sidecars_first_write_wins_witness:
  "lookup sidecar_world [''out'', ''a.json''] = Some (Blob ''old'') \<and>
   lookup (snd (copy_sidecars [''in'', ''a.tif''] [''out''] sidecar_world)) [''out'', ''a.json'']
     = Some (Blob ''old'') \<and>
   lookup (snd (copy_sidecars [''in'', ''a.tif''] [''out''] sidecar_world)) [''out'', ''a.xml'']
     = Some (Blob ''x'')"
proof -
  note T = copy_sidecars_first_write_wins [of sidecar_world "[''in'', ''a.tif'']" "[''out'']"]
  have old: "lookup sidecar_world [''out'', ''a.json''] = Some (Blob ''old'')"
    by (simp add: sidecar_eval)
  have kept: "lookup (snd (copy_sidecars [''in'', ''a.tif''] [''out''] sidecar_world)) [''out'', ''a.json'']
     = Some (Blob ''old'')"
    using T old by blast
  have r: "fst (copy_sidecars [''in'', ''a.tif''] [''out''] sidecar_world) = Inr [''a.json'', ''a.xml'']"
    by (simp add: sidecar_eval)
  have s: "''.xml'' \<in> set SIDECAR_SUFFIXES" by (simp add: SIDECAR_SUFFIXES_def)
  have c: "with_name [''in'', ''a.tif'']
             (take (length (path_name [''in'', ''a.tif'']) - 4) (path_name [''in'', ''a.tif'']) @ ''.xml'')
           = Inr [''in'', ''a.xml'']"
    by (simp add: with_name_def path_name_def)
  have e: "path_exists [''in'', ''a.xml''] sidecar_world"
          "\<not> path_exists (joinpath [''out''] (path_name [''in'', ''a.xml''])) sidecar_world"
    by (simp_all add: sidecar_eval)
  have "lookup (snd (copy_sidecars [''in'', ''a.tif''] [''out''] sidecar_world))
           (joinpath [''out''] (path_name [''in'', ''a.xml''])) = lookup sidecar_world [''in'', ''a.xml'']"
    using T r s c e by blast
  then have copied: "lookup (snd (copy_sidecars [''in'', ''a.tif''] [''out''] sidecar_world)) [''out'', ''a.xml'']
     = Some (Blob ''x'')"
    by (simp add: sidecar_eval)
  from old kept copied show ?thesis by blast
qed

theorem copy_sidecars_reports_every_candidate_witness:
  "fst (copy_sidecars [''in'', ''a.tif''] [''out''] sidecar_world) = Inr [''a.json'', ''a.xml''] \<and>
   ''a.json'' \<in> set [''a.json'', ''a.xml''] \<and>
   lookup (snd (copy_sidecars [''in'', ''a.tif''] [''out''] sidecar_world)) [''out'', ''a.json'']
     = Some (Blob ''old'') \<and>
   lookup sidecar_world [''in'', ''a.json''] = Some (Blob ''new'')"
proof -
  have r: "fst (copy_sidecars [''in'', ''a.tif''] [''out''] sidecar_world) = Inr [''a.json'', ''a.xml'']"
    by (simp add: sidecar_eval)
  note T = copy_sidecars_reports_every_candidate [OF r]
  have s: "''.json'' \<in> set SIDECAR_SUFFIXES" by (simp add: SIDECAR_SUFFIXES_def)
  have c: "with_name [''in'', ''a.tif'']
             (take (length (path_name [''in'', ''a.tif'']) - 4) (path_name [''in'', ''a.tif'']) @ ''.json'')
           = Inr [''in'', ''a.json'']"
    by (simp add: with_name_def path_name_def)
  have e: "path_exists [''in'', ''a.json''] sidecar_world"
          "path_exists (joinpath [''out''] (path_name [''in'', ''a.json''])) sidecar_world"
    by (simp_all add: sidecar_eval)
  have "path_name [''in'', ''a.json''] \<in> set [''a.json'', ''a.xml''] \<and>
        lookup (snd (copy_sidecars [''in'', ''a.tif''] [''out''] sidecar_world))
           (joinpath [''out''] (path_name [''in'', ''a.json'']))
        = lookup sidecar_world (joinpath [''out''] (path_name [''in'', ''a.json'']))"
    using T s c e by blast
  then have "lookup (snd (copy_sidecars [''in'', ''a.tif''] [''out''] sidecar_world)) [''out'', ''a.json'']
     = Some (Blob ''old'')"
    by (simp add: sidecar_eval)
  moreover have "lookup sidecar_world [''in'', ''a.json''] = Some (Blob ''new'')"
    by (simp add: sidecar_eval)
  ultimately show ?thesis using r by simp
qed

subsection \<open>Worlds after a step\<close>

lemma env_printing:
  "files (printing ev w) = files w" "dirs (printing ev w) = dirs w"
  "printed (printing ev w) = printed w @ [ev]" "print_error (printing ev w) = print_error w"
  "mkdir_refused (printing ev w) = mkdir_refused w" "list_refused (printing ev w) = list_refused w"
  "copy_refused (printing ev w) = copy_refused w" "create_refused (printing ev w) = create_refused w"
  "update_refused (printing ev w) = update_refused w" "rpc_not_kept (printing ev w) = rpc_not_kept w"
  "has_cv2 (printing ev w) = has_cv2 w"
  by (simp_all add: printing_def)

lemma env_out_made:
  "files (out_made w) = files w" "dirs (out_made w) = [[], [''out'']] @ dirs w"
  "printed (out_made w) = printed w" "print_error (out_made w) = print_error w"
  "mkdir_refused (out_made w) = mkdir_refused w" "list_refused (out_made w) = list_refused w"
  "copy_refused (out_made w) = copy_refused w" "create_refused (out_made w) = create_refused w"
  "update_refused (out_made w) = update_refused w" "rpc_not_kept (out_made w) = rpc_not_kept w"
  "has_cv2 (out_made w) = has_cv2 w"
  by (simp_all add: out_made_def)

lemma env_write_file:
  "files (write_file p f w) = (p, f) # files w" "dirs (write_file p f w) = dirs w"
  "printed (write_file p f w) = printed w" "print_error (write_file p f w) = print_error w"
  "mkdir_refused (write_file p f w) = mkdir_refused w" "list_refused (write_file p f w) = list_refused w"
  "copy_refused (write_file p f w) = copy_refused w" "create_refused (write_file p f w) = create_refused w"
  "update_refused (write_file p f w) = update_refused w" "rpc_not_kept (write_file p f w) = rpc_not_kept w"
  "has_cv2 (write_file p f w) = has_cv2 w"
  by (simp_all add: write_file_def)

lemmas env_step = env_printing env_out_made env_write_file

lemma log_msg_printed: "print_error w ev = None \<Longrightarrow> log_msg ev w = (Inr (), printing ev w)"
  by (simp add: log_msg_def printing_def)


lemma ensure_dir_out:
  "\<not> mkdir_refused w [''out''] \<Longrightarrow> \<not> path_exists [''out''] w \<Longrightarrow>
   ensure_dir [''out''] w = (Inr (), out_made w)"
  by (simp add: ensure_dir_def out_made_def upt_rec)

subsection \<open>The pipeline on a raster of one sample\<close>

lemma rp_tiny: "robust_percentiles (NDArray sh [7]) 1 99 = Inr (7, 7)"
  by (simp add: robust_percentiles_def np_percentile_pair_def np_percentile_def u16_to_float_def Let_def)

lemma stretch_tiny: "stretch (NDArray sh [7]) 7 7 = NDArray sh [0]"
  by (simp add: stretch_def clip_def u16_to_float_def)

lemma tone_tiny: "apply_shadow_highlight_tone (NDArray sh [0]) (1/5) (1/10) = NDArray sh [49/250]"
  by (simp add: apply_shadow_highlight_tone_def clip_def)

lemma quant_tiny: "quantize (NDArray sh [49/250]) = NDArray sh [12845]"
  by (simp add: quantize_def astype_uint16_def trunc_def float32_eval)

lemma pixels_tiny:
  assumes "\<not> has_cv2 w"
  shows "process_one_pixels (tiny_raster n rpc) default_kwargs w = Inr (NDArray [1, 1] [12845])"
proof -
  have a: "map_ndarray word_of_int (read_arr (tiny_raster n rpc)) = (NDArray [1, 1] [7] :: uint16 ndarray)"
    by (simp add: read_arr_def tiny_raster_def)
  show ?thesis
    unfolding process_one_pixels_def a Let_def
    using assms by (simp add: default_kwargs_def rp_tiny stretch_tiny tone_tiny quant_tiny)
qed

lemma products_none: "process_one_products dst out default_kwargs w = (Inr None, w)"
  by (simp add: process_one_products_def default_kwargs_def)

lemma write_tiny:
  assumes "\<not> create_refused w p"
  shows "write_uint16_like (tiny_raster 1 rpc) p (NDArray [1, 1] [12845]) w
       = (Inr (), write_file p (Raster tiny_output) w)"
  using assms by (simp add: write_uint16_like_def tiny_output_def tiny_raster_def)

lemma env_locked:
  "files locked_world = [([''in'', ''a.tif''], Raster (tiny_raster 1 [(''LINE_OFF'', ''1'')]))]"
  "dirs locked_world = []" "printed locked_world = []" "print_error locked_world ev = None"
  "\<not> has_cv2 locked_world" "\<not> mkdir_refused locked_world p" "\<not> create_refused locked_world p"
  "update_refused locked_world p \<longleftrightarrow> p = [''out'', ''a.tif'']"
  by (simp_all add: locked_world_def quiet_world_def)

lemma sidecars_locked:
  assumes "files w = files locked_world"
  shows "copy_sidecars [''in'', ''a.tif''] [''out''] w = (Inr [], w)"
  by (simp add: copy_sidecars_def SIDECAR_SUFFIXES_def with_name_def path_name_def
        path_exists_def lookup_def assms env_locked)

lemma rpc_locked:
  "process_one_rpc (tiny_raster 1 [(''LINE_OFF'', ''1'')]) [''in'', ''a.tif''] [''out'', ''a.tif''] locked_written
   = (Inl (RuntimeError ''cannot open for update''), locked_written)"
  by (simp add: process_one_rpc_def embed_rpc_into_tif_def gdal_Open_def gdal_failure_def
        gdal_exceptions_def lookup_def locked_written_def env_step env_locked tiny_raster_def)

lemma locked_eval:
  "process_one [''in'', ''a.tif''] [''out''] default_kwargs locked_world
   = (Inl (RuntimeError ''cannot open for update''), locked_written)"
proof -
  define w1 where "w1 = out_made locked_world"
  define w2 where "w2 = printing (RADPREP ''a.tif'') w1"
  have e: "ensure_dir [''out''] locked_world = (Inr (), w1)"
    unfolding w1_def by (rule ensure_dir_out) (simp_all add: env_locked path_exists_def lookup_def)
  have s: "copy_sidecars [''in'', ''a.tif''] [''out''] w1 = (Inr [], w1)"
    by (rule sidecars_locked) (simp add: w1_def env_step)
  have l: "log_msg (RADPREP ''a.tif'') w1 = (Inr (), w2)"
    unfolding w2_def by (rule log_msg_printed) (simp add: w1_def env_step env_locked)
  have o: "gdal_Open [''in'', ''a.tif''] GA_ReadOnly w2 = Inr (Some (tiny_raster 1 [(''LINE_OFF'', ''1'')]))"
    by (simp add: gdal_Open_def lookup_def w2_def w1_def env_step env_locked)
  have p: "process_one_pixels (tiny_raster 1 [(''LINE_OFF'', ''1'')]) default_kwargs w2
           = Inr (NDArray [1, 1] [12845])"
    by (rule pixels_tiny) (simp add: w2_def w1_def env_step env_locked)
  have wr: "write_uint16_like (tiny_raster 1 [(''LINE_OFF'', ''1'')]) [''out'', ''a.tif'']
              (NDArray [1, 1] [12845]) w2 = (Inr (), locked_written)"
    unfolding locked_written_def w2_def w1_def
    by (rule write_tiny) (simp add: env_step env_locked)
  have n: "path_name [''in'', ''a.tif''] = ''a.tif''" "joinpath [''out''] ''a.tif'' = [''out'', ''a.tif'']"
    by (simp_all add: path_name_def joinpath_def)
  have rc: "RasterCount (tiny_raster 1 [(''LINE_OFF'', ''1'')]) = 1" by (simp add: tiny_raster_def)
  show ?thesis
    by (simp add: process_one_def e s n l Let_def o rc p wr rpc_locked del: One_nat_def)
qed

subsection \<open>Sensor-model transplant\<close>

text \<open>
  What the transplant does in each of the three failures the specification names, when
  the warning can be printed: an empty source block and a block that the verification
  does not find again are warnings; an output raster that cannot be opened for update is
  an exception, since GDAL raises where line 56 expects \<^verbatim>\<open>None\<close>.
\<close>

lemma transplant_warns_without_block:
  assumes "rpc_md sds = []" "read_rpc_from_source src_tif w = Inr []"
  shows "process_one_rpc sds src_tif dst_tif w = log_msg (WARN_no_rpc (path_name dst_tif)) w"
  using assms by (simp add: process_one_rpc_def embed_rpc_into_tif_def)

lemma transplant_warns_unverified:
  assumes "rpc_md sds \<noteq> []" "lookup w dst_tif = Some (Raster d)" "\<not> update_refused w dst_tif"
    and "rpc_not_kept w dst_tif" "rpc_md d = []"
  shows "process_one_rpc sds src_tif dst_tif w = log_msg (WARN_verify (path_name dst_tif)) w"
  using assms
  by (simp add: process_one_rpc_def embed_rpc_into_tif_def verify_embedded_rpc_def gdal_Open_def)

lemma transplant_raises_when_update_refused:
  assumes "rpc_md sds \<noteq> []" "lookup w dst_tif = Some (Raster d)" "update_refused w dst_tif"
  shows "process_one_rpc sds src_tif dst_tif w = (Inl (RuntimeError ''cannot open for update''), w)"
  using assms
  by (simp add: process_one_rpc_def embed_rpc_into_tif_def gdal_Open_def gdal_failure_def
        gdal_exceptions_def)

text \<open>
  C3 (the code departs from it). The claim: once the pixel output raster is written, a
  failure of the sensor-model transplant, the destination not being openable for update
  included, never raises out of \<open>process_one\<close>. In \<open>locked_world\<close> the output raster is
  written with its pixels, the open for update of line 55 fails, and \<open>process_one\<close> ends
  in RuntimeError instead of a warning and the destination path.
\<close>

theorem transplant_open_failure_raises:
  "fst (process_one [''in'', ''a.tif''] [''out''] default_kwargs locked_world)
     = Inl (RuntimeError ''cannot open for update'') \<and>
   lookup (snd (process_one [''in'', ''a.tif''] [''out''] default_kwargs locked_world))
     [''out'', ''a.tif''] = Some (Raster tiny_output) \<and>
   printed (snd (process_one [''in'', ''a.tif''] [''out''] default_kwargs locked_world))
     = [RADPREP ''a.tif'']"
  by (simp add: locked_eval locked_written_def lookup_def env_step env_locked)

subsection \<open>What the stages print\<close>






















subsection \<open>Batch driver\<close>







subsection \<open>A batch of two files, the first of which fails\<close>

lemma env_batch:
  "files batch_world =
     [([''in'', ''a_basic_l1a_panchromatic_dn.tif''], Raster (tiny_raster 2 [])),
      ([''in'', ''b_basic_l1a_panchromatic_dn.TIF''], Raster (tiny_raster 1 [(''LINE_OFF'', ''1'')])),
      ([''in'', ''notes.txt''], Blob ''n'')]"
  "dirs batch_world = []" "printed batch_world = []" "print_error batch_world ev = None"
  "\<not> mkdir_refused batch_world p" "\<not> list_refused batch_world p"
  "\<not> create_refused batch_world p" "\<not> update_refused batch_world p"
  "\<not> rpc_not_kept batch_world p" "\<not> has_cv2 batch_world"
  by (simp_all add: batch_world_def quiet_world_def)


lemma find_batch:
  assumes "files w = files batch_world" "\<not> list_refused w [''in'']"
  shows "find_tifs [''in''] w =
     Inr [[''in'', ''a_basic_l1a_panchromatic_dn.tif''], [''in'', ''b_basic_l1a_panchromatic_dn.TIF'']]"
  using assms(2)
  by (simp add: find_tifs_def is_dir_def assms(1) env_batch EXT_TIF_RE_match_def path_name_def
        lower_def Let_def)

lemma no_out: "files w = files batch_world \<Longrightarrow> \<not> path_exists [''out''] w"
  by (simp add: path_exists_def lookup_def env_batch)

lemma sidecars_none:
  assumes "files w = files batch_world"
  shows "copy_sidecars [''in'', ''a_basic_l1a_panchromatic_dn.tif''] [''out''] w = (Inr [], w)"
    and "copy_sidecars [''in'', ''b_basic_l1a_panchromatic_dn.TIF''] [''out''] w = (Inr [], w)"
  by (simp_all add: copy_sidecars_def SIDECAR_SUFFIXES_def with_name_def path_name_def
        path_exists_def lookup_def assms env_batch)

lemma one_a:
  assumes f: "files w = files batch_world" and m: "\<not> mkdir_refused w [''out'']"
    and pr: "print_error w (RADPREP ''a_basic_l1a_panchromatic_dn.tif'') = None"
  shows "process_one [''in'', ''a_basic_l1a_panchromatic_dn.tif''] [''out''] default_kwargs w
   = (Inl (RuntimeError ''expected 1 band''),
      printing (RADPREP ''a_basic_l1a_panchromatic_dn.tif'') (out_made w))"
proof -
  define w1 where "w1 = out_made w"
  define w2 where "w2 = printing (RADPREP ''a_basic_l1a_panchromatic_dn.tif'') w1"
  have e: "ensure_dir [''out''] w = (Inr (), w1)"
    unfolding w1_def using m no_out [OF f] by (rule ensure_dir_out)
  have f1: "files w1 = files batch_world" by (simp add: w1_def env_step f)
  have s: "copy_sidecars [''in'', ''a_basic_l1a_panchromatic_dn.tif''] [''out''] w1 = (Inr [], w1)"
    using f1 by (rule sidecars_none)
  have l: "log_msg (RADPREP ''a_basic_l1a_panchromatic_dn.tif'') w1 = (Inr (), w2)"
    unfolding w2_def by (rule log_msg_printed) (simp add: w1_def env_step pr)
  have o: "gdal_Open [''in'', ''a_basic_l1a_panchromatic_dn.tif''] GA_ReadOnly w2
             = Inr (Some (tiny_raster 2 []))"
    by (simp add: gdal_Open_def lookup_def w2_def env_step f1 env_batch)
  have n: "path_name [''in'', ''a_basic_l1a_panchromatic_dn.tif''] = ''a_basic_l1a_panchromatic_dn.tif''"
    by (simp add: path_name_def)
  have rc: "RasterCount (tiny_raster 2 []) = 2" by (simp add: tiny_raster_def)
  show ?thesis
    unfolding w2_def [symmetric] w1_def [symmetric]
    by (simp add: process_one_def e s n l Let_def o rc w2_def [symmetric] del: One_nat_def)
qed

lemma one_b:
  assumes f: "files w = files batch_world" and m: "\<not> mkdir_refused w [''out'']"
    and pr: "print_error w (RADPREP ''b_basic_l1a_panchromatic_dn.TIF'') = None"
    and env: "\<not> has_cv2 w" "\<not> create_refused w [''out'', ''b_basic_l1a_panchromatic_dn.TIF'']"
      "\<not> update_refused w [''out'', ''b_basic_l1a_panchromatic_dn.TIF'']"
      "\<not> rpc_not_kept w [''out'', ''b_basic_l1a_panchromatic_dn.TIF'']"
  shows "process_one [''in'', ''b_basic_l1a_panchromatic_dn.TIF''] [''out''] default_kwargs w
   = (Inr ([''out'', ''b_basic_l1a_panchromatic_dn.TIF''], [], None),
      write_file [''out'', ''b_basic_l1a_panchromatic_dn.TIF'']
        (Raster (tiny_output\<lparr>rpc_md := [(''LINE_OFF'', ''1'')]\<rparr>))
        (write_file [''out'', ''b_basic_l1a_panchromatic_dn.TIF''] (Raster tiny_output)
          (printing (RADPREP ''b_basic_l1a_panchromatic_dn.TIF'') (out_made w))))"
proof -
  define dst where "dst = [''out'', ''b_basic_l1a_panchromatic_dn.TIF'']"
  define w1 where "w1 = out_made w"
  define w2 where "w2 = printing (RADPREP ''b_basic_l1a_panchromatic_dn.TIF'') w1"
  define w3 where "w3 = write_file dst (Raster tiny_output) w2"
  define w4 where "w4 = write_file dst (Raster (tiny_output\<lparr>rpc_md := [(''LINE_OFF'', ''1'')]\<rparr>)) w3"
  have e: "ensure_dir [''out''] w = (Inr (), w1)"
    unfolding w1_def using m no_out [OF f] by (rule ensure_dir_out)
  have f1: "files w1 = files batch_world" by (simp add: w1_def env_step f)
  have s: "copy_sidecars [''in'', ''b_basic_l1a_panchromatic_dn.TIF''] [''out''] w1 = (Inr [], w1)"
    using f1 by (rule sidecars_none)
  have l: "log_msg (RADPREP ''b_basic_l1a_panchromatic_dn.TIF'') w1 = (Inr (), w2)"
    unfolding w2_def by (rule log_msg_printed) (simp add: w1_def env_step pr)
  have o: "gdal_Open [''in'', ''b_basic_l1a_panchromatic_dn.TIF''] GA_ReadOnly w2
             = Inr (Some (tiny_raster 1 [(''LINE_OFF'', ''1'')]))"
    by (simp add: gdal_Open_def lookup_def w2_def env_step f1 env_batch)
  have p: "process_one_pixels (tiny_raster 1 [(''LINE_OFF'', ''1'')]) default_kwargs w2
           = Inr (NDArray [1, 1] [12845])"
    by (rule pixels_tiny) (simp add: w2_def w1_def env_step env)
  have wr: "write_uint16_like (tiny_raster 1 [(''LINE_OFF'', ''1'')]) dst (NDArray [1, 1] [12845]) w2
            = (Inr (), w3)"
    unfolding w3_def by (rule write_tiny) (simp add: w2_def w1_def env_step env dst_def)
  have l3: "lookup w3 dst = Some (Raster tiny_output)"
    by (simp add: lookup_def w3_def env_step)
  have em: "embed_rpc_into_tif dst [(''LINE_OFF'', ''1'')] w3 = (Inr True, w4)"
    by (simp add: embed_rpc_into_tif_def gdal_Open_def l3 w4_def)
       (simp add: w3_def w2_def w1_def env_step env dst_def)
  have l4: "lookup w4 dst = Some (Raster (tiny_output\<lparr>rpc_md := [(''LINE_OFF'', ''1'')]\<rparr>))"
    by (simp add: lookup_def w4_def env_step)
  have v: "verify_embedded_rpc dst w4 = Inr True"
    by (simp add: verify_embedded_rpc_def gdal_Open_def l4)
  have rpc: "process_one_rpc (tiny_raster 1 [(''LINE_OFF'', ''1'')])
               [''in'', ''b_basic_l1a_panchromatic_dn.TIF''] dst w3 = (Inr (), w4)"
    by (simp add: process_one_rpc_def tiny_raster_def em v)
  have n: "path_name [''in'', ''b_basic_l1a_panchromatic_dn.TIF''] = ''b_basic_l1a_panchromatic_dn.TIF''"
    "joinpath [''out''] ''b_basic_l1a_panchromatic_dn.TIF'' = dst"
    by (simp_all add: path_name_def joinpath_def dst_def)
  have rc: "RasterCount (tiny_raster 1 [(''LINE_OFF'', ''1'')]) = 1" by (simp add: tiny_raster_def)
  have "process_one [''in'', ''b_basic_l1a_panchromatic_dn.TIF''] [''out''] default_kwargs w
        = (Inr (dst, [], None), w4)"
    by (simp add: process_one_def e s n l Let_def o rc p wr rpc products_none del: One_nat_def)
  then show ?thesis by (simp add: w4_def w3_def w2_def w1_def dst_def)
qed

lemma batch_trace:
  "fst (process_pair_dirs [''in''] [''out''] default_kwargs batch_world) = Inr () \<and>
   printed (snd (process_pair_dirs [''in''] [''out''] default_kwargs batch_world))
   = [RADPREP ''a_basic_l1a_panchromatic_dn.tif'',
      ERROR ''a_basic_l1a_panchromatic_dn.tif'' (RuntimeError ''expected 1 band''),
      RADPREP ''b_basic_l1a_panchromatic_dn.TIF'',
      Wrote ''b_basic_l1a_panchromatic_dn.TIF''] \<and>
   lookup (snd (process_pair_dirs [''in''] [''out''] default_kwargs batch_world))
     [''out'', ''b_basic_l1a_panchromatic_dn.TIF'']
   = Some (Raster (tiny_output\<lparr>rpc_md := [(''LINE_OFF'', ''1'')]\<rparr>))"
proof -
  define w0 where "w0 = out_made batch_world"
  define wa where "wa = printing (RADPREP ''a_basic_l1a_panchromatic_dn.tif'') (out_made w0)"
  define wa' where "wa' = printing (ERROR ''a_basic_l1a_panchromatic_dn.tif''
                             (RuntimeError ''expected 1 band'')) wa"
  define wb where "wb = write_file [''out'', ''b_basic_l1a_panchromatic_dn.TIF'']
        (Raster (tiny_output\<lparr>rpc_md := [(''LINE_OFF'', ''1'')]\<rparr>))
        (write_file [''out'', ''b_basic_l1a_panchromatic_dn.TIF''] (Raster tiny_output)
          (printing (RADPREP ''b_basic_l1a_panchromatic_dn.TIF'') (out_made wa')))"
  define wb' where "wb' = printing (Wrote ''b_basic_l1a_panchromatic_dn.TIF'') wb"
  have e: "ensure_dir [''out''] batch_world = (Inr (), w0)"
    unfolding w0_def by (rule ensure_dir_out) (simp_all add: env_batch no_out)
  have f: "find_tifs [''in''] w0 =
     Inr [[''in'', ''a_basic_l1a_panchromatic_dn.tif''], [''in'', ''b_basic_l1a_panchromatic_dn.TIF'']]"
    by (rule find_batch) (simp_all add: w0_def env_step env_batch)
  have a: "process_one [''in'', ''a_basic_l1a_panchromatic_dn.tif''] [''out''] default_kwargs w0
             = (Inl (RuntimeError ''expected 1 band''), wa)"
    unfolding wa_def by (rule one_a) (simp_all add: w0_def env_step env_batch)
  have la: "log_msg (ERROR ''a_basic_l1a_panchromatic_dn.tif'' (RuntimeError ''expected 1 band'')) wa
             = (Inr (), wa')"
    unfolding wa'_def by (rule log_msg_printed) (simp add: wa_def w0_def env_step env_batch)
  have b: "process_one [''in'', ''b_basic_l1a_panchromatic_dn.TIF''] [''out''] default_kwargs wa'
             = (Inr ([''out'', ''b_basic_l1a_panchromatic_dn.TIF''], [], None), wb)"
    unfolding wb_def by (rule one_b) (simp_all add: wa'_def wa_def w0_def env_step env_batch)
  have lb: "log_msg (Wrote ''b_basic_l1a_panchromatic_dn.TIF'') wb = (Inr (), wb')"
    unfolding wb'_def
    by (rule log_msg_printed) (simp add: wb_def wa'_def wa_def w0_def env_step env_batch)
  have pn: "path_name [''in'', ''a_basic_l1a_panchromatic_dn.tif''] = ''a_basic_l1a_panchromatic_dn.tif''"
    "path_name [''out'', ''b_basic_l1a_panchromatic_dn.TIF''] = ''b_basic_l1a_panchromatic_dn.TIF''"
    by (simp_all add: path_name_def)
  have r: "process_pair_dirs [''in''] [''out''] default_kwargs batch_world = (Inr (), wb')"
    by (simp add: process_pair_dirs_def e f process_tifs_try_def a la b lb pn)
  show ?thesis
    by (simp add: r wb'_def wb_def wa'_def wa_def w0_def env_step env_batch lookup_def)
qed



end
